theory Spec2Isabelle
  imports Main "HOL-Library.AList"
begin

section \<open>Python values and the libraries the engine calls\<close>

text \<open>
  The engine (src/ifaplib/__init__.py) is Python 2. Its strings are byte strings
  (\<open>string\<close>), its integers are unbounded (\<open>int\<close>), a dict is an association list
  read with \<open>map_of\<close> and written with \<open>AList.update\<close> and \<open>AList.delete\<close>.
  Every exception the code can meet is a value of \<open>py_error\<close>.
\<close>

datatype py_error =
  IOError | ValueError | NameError | AttributeError | KeyError | IndexError
  | InvalidToken | TypeError

text \<open>What \<open>json.loads\<close> returns and \<open>json.dumps\<close> takes (floats left out).\<close>

datatype json =
  JNull | JBool bool | JInt int | JStr string | JArr "json list"
  | JObj "(string \<times> json) list"

type_synonym pydict = "(string \<times> json) list"

text \<open>
  The functions of the standard library and of the cryptography package that the
  engine calls are not code of this repository. They are parameters of the model:
  \<^item> \<open>py_int\<close>: the builtin \<open>int\<close> on a string (\<open>None\<close>: ValueError);
  \<^item> \<open>email_header\<close>: \<open>Parser().parsestr(text, headersonly=True)[name]\<close> (\<open>None\<close>: the
    header is missing and the lookup returns Python's None);
  \<^item> \<open>json_loads\<close>: \<open>json.loads\<close> (\<open>None\<close>: ValueError);
  \<^item> \<open>json_nonascii\<close>: the JSON string literal \<open>json.dumps\<close> writes for a string that
    holds a byte outside ASCII (ASCII strings are encoded by \<open>encode_basestring\<close> below);
  \<^item> \<open>fernet_encrypt\<close>, \<open>fernet_decrypt\<close>: \<open>Fernet(key).encrypt\<close> and
    \<open>Fernet(key).decrypt\<close> (\<open>None\<close>: InvalidToken); a real token also depends on the
    clock and on a random IV, \<open>fernet_encrypt\<close> stands for the token of this call;
  \<^item> \<open>sha256_digest\<close>, \<open>urlsafe_b64encode\<close>, \<open>b64encode\<close>.
\<close>

record pylib =
  py_int :: "string \<Rightarrow> int option"
  email_header :: "string \<Rightarrow> string \<Rightarrow> string option"
  json_loads :: "string \<Rightarrow> json option"
  json_nonascii :: "string \<Rightarrow> string"
  fernet_encrypt :: "string \<Rightarrow> string \<Rightarrow> string"
  fernet_decrypt :: "string \<Rightarrow> string \<Rightarrow> string option"
  sha256_digest :: "string \<Rightarrow> string"
  urlsafe_b64encode :: "string \<Rightarrow> string"
  b64encode :: "string \<Rightarrow> string"

section \<open>The engine's state\<close>

text \<open>
  \<open>_IFAP_Config\<close>. The \<open>fernet\<close> field holds the Fernet object, which is determined by
  the key it was built from; \<open>None\<close> is Python's None.
\<close>

record IFAP_Config =
  buffering_max_bytes :: int
  buffering :: bool
  encrypt :: bool
  fernet :: "string option"
  key :: "string option"

text \<open>
  A key of the \<open>_tree\<close> dict. The code uses whatever \<open>metadata['fn']\<close> holds: a string,
  or another hashable JSON value (True and 1 are the same dict key in Python).
\<close>

datatype pykey = KStr string | KInt int | KNone

type_synonym index = "(pykey \<times> (int \<times> pydict)) list"

text \<open>
  The attributes of an \<open>IFAP\<close> object. \<open>unwritten\<close> maps a path to the contents of the
  staged file object; the lock is left out (one thread).
\<close>

record IFAP =
  config :: IFAP_Config
  base_folder :: string
  sstack :: "IFAP_Config list"
  unwritten :: "(string \<times> string) list"
  unwritten_bytes :: int
  tree :: index

section \<open>The IMAP backend\<close>

text \<open>
  One element of the data list of a \<open>fetch\<close> response, as imaplib returns it: a pair
  (envelope, literal), a plain string, or None.
\<close>

datatype fetch_item = Part string string | Lit string | NoneItem

text \<open>
  The answers of the backend object. \<open>imap_select folder\<close> is element 0 of the
  response to \<open>select\<close>; \<open>imap_search\<close> is the response to \<open>search(None, 'ALL')\<close>,
  status and the one data string; \<open>imap_fetch seq\<close> is the response to
  \<open>fetch(str(seq), '(BODY.PEEK[]<0.1024>)')\<close>; \<open>imap_append folder eml\<close> is the
  response to \<open>append(folder, None, None, eml)\<close>.
\<close>

record imap =
  imap_select :: "string \<Rightarrow> string"
  imap_search :: "string \<times> string"
  imap_fetch :: "int \<Rightarrow> string \<times> fetch_item list"
  imap_append :: "string \<Rightarrow> string \<Rightarrow> string \<times> string"

section \<open>Builtins\<close>

text \<open>\<open>s.split(sep)\<close> for a separator of one character.\<close>

fun split_on :: "char \<Rightarrow> string \<Rightarrow> string list" where
  "split_on c [] = [[]]"
| "split_on c (x # xs) =
     (if x = c then [] # split_on c xs
      else (case split_on c xs of
              [] \<Rightarrow> [[x]]
            | w # ws \<Rightarrow> (x # w) # ws))"

text \<open>White space as \<open>str.strip()\<close> and \<open>str.split()\<close> see it.\<close>

definition is_space :: "char \<Rightarrow> bool" where
  "is_space c \<longleftrightarrow> c \<in> {CHR '' '', CHR 0x09, CHR 0x0A, CHR 0x0B, CHR 0x0C, CHR 0x0D}"

definition strip :: "string \<Rightarrow> string" where
  "strip s = rev (dropWhile is_space (rev (dropWhile is_space s)))"

section \<open>synchronize\<close>

definition SNAPSHOT_FILE_PATH :: string where
  "SNAPSHOT_FILE_PATH = ''IFAP/metadata.json''"

text \<open>\<open>data[0][1]\<close>.\<close>

definition data_0_1 :: "fetch_item list \<Rightarrow> py_error + string" where
  "data_0_1 data =
     (case data of
        [] \<Rightarrow> Inl IndexError
      | Part a b # _ \<Rightarrow> Inr b
      | Lit s # _ \<Rightarrow> (if 2 \<le> length s then Inr [s ! 1] else Inl IndexError)
      | NoneItem # _ \<Rightarrow> Inl TypeError)"

text \<open>\<open>metadata['fn']\<close> on whatever \<open>json.loads\<close> returned.\<close>

definition get_fn :: "json \<Rightarrow> py_error + (json \<times> pydict)" where
  "get_fn metadata =
     (case metadata of
        JObj kvs \<Rightarrow> (case map_of kvs ''fn'' of
                      None \<Rightarrow> Inl KeyError
                    | Some v \<Rightarrow> Inr (v, kvs))
      | _ \<Rightarrow> Inl TypeError)"

text \<open>
  The body of the \<open>try\<close> block of \<open>synchronize\<close>: from the data of a fetch response to
  \<open>(file_path, metadata)\<close>, or the exception raised on the way.
\<close>

definition parse_message ::
  "pylib \<Rightarrow> IFAP_Config \<Rightarrow> fetch_item list \<Rightarrow> py_error + (json \<times> pydict)" where
  "parse_message L cfg data =
     (case data_0_1 data of
        Inl e \<Rightarrow> Inl e
      | Inr text \<Rightarrow>
          (case email_header L text ''X-IFAP'' of
             None \<Rightarrow> Inl AttributeError
           | Some hdr \<Rightarrow>
               (let xifap = strip hdr in
                (case (if take 1 xifap \<noteq> ''{''
                       then (case fernet cfg of
                               None \<Rightarrow> Inl AttributeError
                             | Some k \<Rightarrow> (case fernet_decrypt L k xifap of
                                           None \<Rightarrow> Inl InvalidToken
                                         | Some p \<Rightarrow> Inr p))
                       else Inr xifap) of
                   Inl e \<Rightarrow> Inl e
                 | Inr xifap' \<Rightarrow>
                     (case json_loads L xifap' of
                        None \<Rightarrow> Inl ValueError
                      | Some metadata \<Rightarrow> get_fn metadata)))))"

text \<open>The \<open>except\<close> clause of that block.\<close>

definition caught :: "py_error \<Rightarrow> bool" where
  "caught e \<longleftrightarrow>
     e \<in> {ValueError, NameError, AttributeError, KeyError, IndexError, InvalidToken}"

text \<open>Hashing a value used as a dict key: a list or a dict is unhashable.\<close>

definition py_key :: "json \<Rightarrow> py_error + pykey" where
  "py_key v =
     (case v of
        JStr s \<Rightarrow> Inr (KStr s)
      | JInt i \<Rightarrow> Inr (KInt i)
      | JBool b \<Rightarrow> Inr (KInt (if b then 1 else 0))
      | JNull \<Rightarrow> Inr KNone
      | JArr _ \<Rightarrow> Inl TypeError
      | JObj _ \<Rightarrow> Inl TypeError)"

text \<open>\<open>self._tree.get(file_path, (-1,))[0]\<close>.\<close>

definition latest_seq :: "index \<Rightarrow> pykey \<Rightarrow> int" where
  "latest_seq t k = (case map_of t k of None \<Rightarrow> - 1 | Some e \<Rightarrow> fst e)"

text \<open>\<open>for k in ('_', 'fn'): if k in metadata: del metadata[k]\<close>.\<close>

definition strip_transport :: "pydict \<Rightarrow> pydict" where
  "strip_transport metadata = AList.delete ''fn'' (AList.delete ''_'' metadata)"

text \<open>The variables the loop of \<open>synchronize\<close> changes.\<close>

record scan_state =
  s_tree :: index
  s_broken :: "int set"
  s_to_delete :: "int set"

text \<open>
  The loop \<open>for seq in reversed(seqs)\<close>, from the given position on. The result is
  the exception that left the loop, if any, and the variables at that moment
  (\<open>_tree\<close> is updated in place, so what was done before an exception stays done).
  The two \<open>print\<close> calls are left out.
\<close>

fun scan ::
  "pylib \<Rightarrow> IFAP_Config \<Rightarrow> imap \<Rightarrow> int list \<Rightarrow> scan_state \<Rightarrow> py_error option \<times> scan_state"
  where
  "scan L cfg B [] st = (None, st)"
| "scan L cfg B (seq # rest) st =
     (if seq \<in> s_to_delete st then scan L cfg B rest st
      else if fst (imap_fetch B seq) \<noteq> ''OK''
      then scan L cfg B rest (st\<lparr>s_broken := insert seq (s_broken st)\<rparr>)
      else
        (case parse_message L cfg (snd (imap_fetch B seq)) of
           Inl e \<Rightarrow>
             if caught e
             then scan L cfg B rest (st\<lparr>s_broken := insert seq (s_broken st)\<rparr>)
             else (Some e, st)
         | Inr (file_path, metadata) \<Rightarrow>
             if file_path = JStr SNAPSHOT_FILE_PATH then scan L cfg B rest st
             else
               (case py_key file_path of
                  Inl e \<Rightarrow> (Some e, st)
                | Inr k \<Rightarrow>
                    if latest_seq (s_tree st) k \<ge> seq then scan L cfg B rest st
                    else
                      scan L cfg B rest
                        (st\<lparr>s_to_delete :=
                               (case map_of (s_tree st) k of
                                  None \<Rightarrow> s_to_delete st
                                | Some e \<Rightarrow> insert (fst e) (s_to_delete st)),
                            s_tree :=
                               AList.update k (seq, strip_transport metadata) (s_tree st)\<rparr>))))"

text \<open>\<open>[int(i) for i in seqs.split(' ')]\<close>: ValueError at the first bad token.\<close>

fun ints_of :: "pylib \<Rightarrow> string list \<Rightarrow> int list option" where
  "ints_of L [] = Some []"
| "ints_of L (w # ws) =
     (case py_int L w of
        None \<Rightarrow> None
      | Some i \<Rightarrow> (case ints_of L ws of None \<Rightarrow> None | Some is \<Rightarrow> Some (i # is)))"

text \<open>
  What a call of \<open>synchronize\<close> leaves: the exception it raised, if any, the object,
  and the two local sets (the second one as printed on the last line).
\<close>

record sync_result =
  exc :: "py_error option"
  ifap :: IFAP
  broken :: "int set"
  to_delete :: "int set"

definition synchronize :: "pylib \<Rightarrow> IFAP \<Rightarrow> imap \<Rightarrow> sync_result" where
  "synchronize L self B =
     (if imap_select B (base_folder self) \<noteq> ''OK''
      then \<lparr>exc = Some IOError, ifap = self, broken = {}, to_delete = {}\<rparr>
      else if fst (imap_search B) \<noteq> ''OK''
      then \<lparr>exc = Some IOError, ifap = self, broken = {}, to_delete = {}\<rparr>
      else
        (case ints_of L (split_on CHR '' '' (snd (imap_search B))) of
           None \<Rightarrow> \<lparr>exc = Some ValueError, ifap = self, broken = {}, to_delete = {}\<rparr>
         | Some is \<Rightarrow>
             (let seqs = sort is;
                  r = scan L (config self) B (rev seqs)
                        \<lparr>s_tree = tree self, s_broken = {}, s_to_delete = {}\<rparr>;
                  st = snd r;
                  self' = self\<lparr>tree := s_tree st\<rparr>
              in (case fst r of
                    Some e \<Rightarrow>
                      \<lparr>exc = Some e, ifap = self', broken = s_broken st,
                       to_delete = s_to_delete st\<rparr>
                  | None \<Rightarrow>
                      \<lparr>exc = None, ifap = self', broken = s_broken st,
                       to_delete = s_to_delete st \<union>
                         (set seqs - s_broken st - set (map (\<lambda>k. fst (snd k)) (s_tree st)))\<rparr>))))"

section \<open>The message codec\<close>

text \<open>\<open>str(n)\<close> for an integer.\<close>

definition digit_char :: "nat \<Rightarrow> char" where
  "digit_char d = char_of (48 + d)"

function dec_nat :: "nat \<Rightarrow> string" where
  "dec_nat n = (if n < 10 then [digit_char n] else dec_nat (n div 10) @ [digit_char (n mod 10)])"
  by pat_completeness auto
termination
  by (relation "measure id") auto

declare dec_nat.simps [simp del]

definition py_str :: "int \<Rightarrow> string" where
  "py_str i = (if i < 0 then CHR ''-'' # dec_nat (nat (- i)) else dec_nat (nat i))"

text \<open>\<open>sep.join(xs)\<close>.\<close>

fun py_join :: "string \<Rightarrow> string list \<Rightarrow> string" where
  "py_join sep [] = []"
| "py_join sep [x] = x"
| "py_join sep (x # y # ys) = x @ sep @ py_join sep (y # ys)"

text \<open>
  The string literal of \<open>json.dumps\<close> (\<open>ensure_ascii\<close>): the double quote and the
  backslash get a backslash, the five named control characters their letter, every
  other character outside the range from space to tilde the form \<open>\u00xx\<close>.
\<close>

definition hex_char :: "nat \<Rightarrow> char" where
  "hex_char d = (if d < 10 then char_of (48 + d) else char_of (87 + d))"

definition escape_char :: "char \<Rightarrow> string" where
  "escape_char c =
     (if c = CHR 0x22 then [CHR 0x5C, CHR 0x22]
      else if c = CHR 0x5C then [CHR 0x5C, CHR 0x5C]
      else if c = CHR 0x08 then [CHR 0x5C, CHR ''b'']
      else if c = CHR 0x0C then [CHR 0x5C, CHR ''f'']
      else if c = CHR 0x0A then [CHR 0x5C, CHR ''n'']
      else if c = CHR 0x0D then [CHR 0x5C, CHR ''r'']
      else if c = CHR 0x09 then [CHR 0x5C, CHR ''t'']
      else if (32::nat) \<le> of_char c \<and> (of_char c :: nat) \<le> 126 then [c]
      else [CHR 0x5C, CHR ''u'', CHR ''0'', CHR ''0'',
            hex_char ((of_char c :: nat) div 16), hex_char ((of_char c :: nat) mod 16)])"

definition encode_basestring :: "pylib \<Rightarrow> string \<Rightarrow> string" where
  "encode_basestring L s =
     (if \<forall>c \<in> set s. (of_char c :: nat) < 128
      then [CHR 0x22] @ concat (map escape_char s) @ [CHR 0x22]
      else json_nonascii L s)"

text \<open>A line break and the indentation of nesting level \<open>n\<close>, for \<open>indent=1\<close>.\<close>

definition newline_indent :: "nat \<Rightarrow> string" where
  "newline_indent n = CHR 0x0A # replicate n CHR '' ''"

text \<open>
  \<open>json.dumps(v, indent=1)\<close> of Python 2.7 at nesting level \<open>n\<close>: items are separated
  by a comma, a space and a line break, a key from its value by a colon and a space,
  an empty container is written without a line break. A Python 2 dict has no defined
  order; the model writes the items in the order of the association list.
\<close>

fun json_dumps_at :: "pylib \<Rightarrow> nat \<Rightarrow> json \<Rightarrow> string" where
  "json_dumps_at L n JNull = ''null''"
| "json_dumps_at L n (JBool b) = (if b then ''true'' else ''false'')"
| "json_dumps_at L n (JInt i) = py_str i"
| "json_dumps_at L n (JStr s) = encode_basestring L s"
| "json_dumps_at L n (JArr xs) =
     (if xs = [] then ''[]''
      else ''['' @ newline_indent (Suc n)
           @ py_join ('', '' @ newline_indent (Suc n)) (map (json_dumps_at L (Suc n)) xs)
           @ newline_indent n @ '']'')"
| "json_dumps_at L n (JObj kvs) =
     (if kvs = [] then ''{}''
      else ''{'' @ newline_indent (Suc n)
           @ py_join ('', '' @ newline_indent (Suc n))
               (map (\<lambda>kv. encode_basestring L (fst kv) @ '': ''
                            @ json_dumps_at L (Suc n) (snd kv)) kvs)
           @ newline_indent n @ ''}'')"

definition json_dumps :: "pylib \<Rightarrow> json \<Rightarrow> string" where
  "json_dumps L v = json_dumps_at L 0 v"

text \<open>\<open>d.update(e)\<close>.\<close>

definition dict_update :: "pydict \<Rightarrow> pydict \<Rightarrow> pydict" where
  "dict_update d e = foldl (\<lambda>a kv. AList.update (fst kv) (snd kv) a) d e"

text \<open>\<open>_maybe_encrypt\<close>.\<close>

definition maybe_encrypt :: "pylib \<Rightarrow> IFAP_Config \<Rightarrow> string \<Rightarrow> bool \<Rightarrow> py_error + string" where
  "maybe_encrypt L cfg data b64 =
     (if encrypt cfg
      then (case fernet cfg of
              None \<Rightarrow> Inl AttributeError
            | Some k \<Rightarrow> Inr (fernet_encrypt L k data))
      else if b64 then Inr (b64encode L data)
      else Inr data)"

text \<open>
  The substitution \<open>re.sub('(\S{n,n})', lambda m: m.group(0) + sep, s)\<close> on a string
  without white space: every full block of \<open>n\<close> characters is followed by \<open>sep\<close>
  (\<open>n\<close> is 77 or 78 in the calls of the engine).
\<close>

function blocks :: "nat \<Rightarrow> string \<Rightarrow> string \<Rightarrow> string" where
  "blocks n sep s =
     (if n = 0 \<or> length s < n then s
      else take n s @ sep @ blocks n sep (drop n s))"
  by pat_completeness auto
termination
  by (relation "measure (\<lambda>(n, sep, s). length s)") auto

declare blocks.simps [simp del]

definition str_replace_nl :: "string \<Rightarrow> string \<Rightarrow> string" where
  "str_replace_nl new s = concat (map (\<lambda>c. if c = CHR 0x0A then new else [c]) s)"

text \<open>\<open>_reflow\<close> with the default \<open>linelen=78\<close>, which no caller changes.\<close>

definition reflow :: "string \<Rightarrow> string \<Rightarrow> bool \<Rightarrow> string" where
  "reflow data indent preserve =
     (if preserve
      then indent @ strip (str_replace_nl ([CHR 0x0D, CHR 0x0A] @ indent) data)
      else indent @ strip (blocks (78 - length indent) ([CHR 0x0D, CHR 0x0A] @ indent)
                             (filter (\<lambda>c. \<not> is_space c) data)))"

definition basename :: "string \<Rightarrow> string" where
  "basename p = rev (takeWhile (\<lambda>c. c \<noteq> CHR ''/'') (rev p))"

text \<open>
  \<open>encode_object\<close>, first the values of its locals \<open>mdata\<close>, \<open>xifap\<close> and \<open>file_data\<close>
  when the message is assembled (line 255), before \<open>_maybe_encrypt\<close> sees them.
  The \<open>metadata\<close> argument is a dict; the empty one stands for None as well.
\<close>

definition encode_mdata0 :: "string \<Rightarrow> string \<Rightarrow> pydict \<Rightarrow> pydict" where
  "encode_mdata0 file_path file_data metadata =
     dict_update [(''fn'', JStr file_path), (''bytes'', JInt (int (length file_data)))] metadata"

definition encode_mdata :: "pylib \<Rightarrow> IFAP_Config \<Rightarrow> string \<Rightarrow> string \<Rightarrow> pydict \<Rightarrow> pydict" where
  "encode_mdata L cfg file_path file_data metadata =
     (let mdata = encode_mdata0 file_path file_data metadata;
          xifap = json_dumps L (JObj mdata)
      in if encrypt cfg
         then AList.update ''_''
                (JStr (take (148 - (length xifap mod 148)) (replicate 200 CHR ''_''))) mdata
         else mdata)"

definition encode_xifap :: "pylib \<Rightarrow> IFAP_Config \<Rightarrow> string \<Rightarrow> string \<Rightarrow> pydict \<Rightarrow> string" where
  "encode_xifap L cfg file_path file_data metadata =
     json_dumps L (JObj (encode_mdata L cfg file_path file_data metadata))"

definition encode_file_data :: "IFAP_Config \<Rightarrow> string \<Rightarrow> string" where
  "encode_file_data cfg file_data =
     (if encrypt cfg
      then file_data @ replicate (2048 - (length file_data mod 2048)) CHR '' ''
      else file_data)"

definition encode_object ::
  "pylib \<Rightarrow> IFAP_Config \<Rightarrow> string \<Rightarrow> string \<Rightarrow> pydict \<Rightarrow> py_error + string" where
  "encode_object L cfg file_path file_data metadata =
     (let xifap = encode_xifap L cfg file_path file_data metadata;
          file_data' = encode_file_data cfg file_data;
          encoding = (if encrypt cfg then ''7bit'' else ''base64'');
          subject = (if encrypt cfg then ''...'' else file_path);
          filename = (if encrypt cfg then ''ifap.enc'' else basename file_path)
      in (case maybe_encrypt L cfg xifap False of
            Inl e \<Rightarrow> Inl e
          | Inr x \<Rightarrow>
              (case maybe_encrypt L cfg file_data' True of
                 Inl e \<Rightarrow> Inl e
               | Inr body \<Rightarrow>
                   Inr (py_join [CHR 0x0D, CHR 0x0A]
                          [''To: .. <to@ifap.example>'',
                           ''From: .. <from@ifap.example>'',
                           ''Subject: '' @ subject,
                           ''X-IFAP:'',
                           reflow x '' '' (\<not> encrypt cfg),
                           ''Content-Type: application/x-ifap'',
                           ''Content-Transfer-Encoding: '' @ encoding,
                           ''Content-Disposition: attachment; filename='' @ [CHR 0x22]
                             @ filename @ [CHR 0x22],
                           [],
                           reflow body [] False]))))"

section \<open>set_encryption_key, flush and open\<close>

definition set_encryption_key :: "pylib \<Rightarrow> IFAP \<Rightarrow> string \<Rightarrow> IFAP" where
  "set_encryption_key L self k =
     (let k' = urlsafe_b64encode L (take 32 (sha256_digest L k))
      in self\<lparr>config := (config self)\<lparr>key := Some k', fernet := Some k', encrypt := True\<rparr>\<rparr>)"

text \<open>
  What a call of \<open>flush\<close> leaves: the exception it raised, if any, the object, and the
  lines it printed.
\<close>

record flush_result =
  f_exc :: "py_error option"
  f_ifap :: IFAP
  f_out :: "string list"

text \<open>
  The loop \<open>for file_path in self._unwritten.keys()\<close>: the keys are listed once, before
  the loop changes the dict. The length of a staged file object is the length of its
  contents.
\<close>

fun flush_loop :: "pylib \<Rightarrow> imap \<Rightarrow> string list \<Rightarrow> IFAP \<Rightarrow> string list \<Rightarrow> flush_result" where
  "flush_loop L B [] self out = \<lparr>f_exc = None, f_ifap = self, f_out = out\<rparr>"
| "flush_loop L B (file_path # ks) self out =
     (case map_of (unwritten self) file_path of
        None \<Rightarrow> \<lparr>f_exc = Some KeyError, f_ifap = self, f_out = out\<rparr>
      | Some buf \<Rightarrow>
          (case encode_object L (config self) file_path buf [] of
             Inl e \<Rightarrow> \<lparr>f_exc = Some e, f_ifap = self, f_out = out\<rparr>
           | Inr eml \<Rightarrow>
               (if fst (imap_append B (base_folder self) eml) = ''OK''
                then flush_loop L B ks
                       (self\<lparr>unwritten_bytes := unwritten_bytes self - int (length buf),
                             unwritten := AList.delete file_path (unwritten self)\<rparr>) out
                else flush_loop L B ks self
                       (out @ [''Failed: '' @ snd (imap_append B (base_folder self) eml)]))))"

definition flush :: "pylib \<Rightarrow> IFAP \<Rightarrow> imap \<Rightarrow> flush_result" where
  "flush L self B = flush_loop L B (map fst (unwritten self)) self []"

text \<open>
  The scoped session. \<open>_IFAP_Config.Copy\<close> builds a new object with the fields of
  the old one. \<open>__enter__\<close> pushes a copy of the configuration, switches buffering on
  in the current one and synchronizes; \<open>__exit__\<close> makes the popped copy the
  configuration, then flushes if the restored configuration asks for it, then
  synchronizes. \<open>B\<close> holds the backend's answers during the flush of \<open>__exit__\<close>,
  \<open>B'\<close> those during the synchronize that follows it.
\<close>

definition Config_Copy :: "IFAP_Config \<Rightarrow> IFAP_Config" where
  "Config_Copy obj =
     \<lparr>buffering_max_bytes = buffering_max_bytes obj, buffering = buffering obj,
      encrypt = encrypt obj, fernet = fernet obj, key = key obj\<rparr>"

definition maybe_flush :: "pylib \<Rightarrow> IFAP \<Rightarrow> imap \<Rightarrow> flush_result" where
  "maybe_flush L self B =
     (if \<not> buffering (config self) \<or> buffering_max_bytes (config self) < unwritten_bytes self
      then flush L self B
      else \<lparr>f_exc = None, f_ifap = self, f_out = []\<rparr>)"

definition IFAP_enter :: "pylib \<Rightarrow> IFAP \<Rightarrow> imap \<Rightarrow> sync_result" where
  "IFAP_enter L self B =
     synchronize L
       (self\<lparr>sstack := sstack self @ [Config_Copy (config self)],
             config := (config self)\<lparr>buffering := True\<rparr>\<rparr>) B"

definition IFAP_exit :: "pylib \<Rightarrow> IFAP \<Rightarrow> imap \<Rightarrow> imap \<Rightarrow> py_error option \<times> IFAP" where
  "IFAP_exit L self B B' =
     (if sstack self = [] then (Some IndexError, self)
      else
        (let fr = maybe_flush L
                    (self\<lparr>config := last (sstack self), sstack := butlast (sstack self)\<rparr>) B
         in (case f_exc fr of
               Some e \<Rightarrow> (Some e, f_ifap fr)
             | None \<Rightarrow> (exc (synchronize L (f_ifap fr) B'), ifap (synchronize L (f_ifap fr) B')))))"

text \<open>
  \<open>IFAP_File\<close>: the buffer of the StringIO and the attributes the constructor sets
  (the lock is left out).
\<close>

record IFAP_File =
  contents :: string
  file_path_attr :: string
  open_mode :: string
  metadata_attr :: pydict

text \<open>
  The names a statement in \<open>IFAP_File.__init__\<close> can read: the parameters of the
  function, the names the module binds at top level, and the builtins (those that
  start with an underscore are listed; no other builtin does).
\<close>

definition init_locals :: "string list" where
  "init_locals = [''self'', ''ifap'', ''file_path'', ''mode'', ''metadata'', ''args'', ''kwargs'']"

definition module_globals :: "string list" where
  "module_globals =
     [''__author__'', ''__version__'', ''__doc__'', ''__name__'', ''__file__'',
      ''__package__'', ''__builtins__'',
      ''base64'', ''email'', ''hashlib'', ''json'', ''os'', ''re'', ''threading'',
      ''StringIO'', ''urlsafe_b64encode'', ''Fernet'', ''InvalidToken'', ''default_backend'',
      ''IFAP_File'', ''_IFAP_Config'', ''IFAP'']"

definition underscore_builtins :: "string list" where
  "underscore_builtins = [''__debug__'', ''__doc__'', ''__import__'', ''__name__'', ''__package__'']"

definition name_defined :: "string \<Rightarrow> bool" where
  "name_defined n \<longleftrightarrow> n \<in> set (init_locals @ module_globals @ underscore_builtins)"

text \<open>
  \<open>IFAP_File.__init__\<close>: the first assignment reads the name \<open>_file_path\<close>.
\<close>

definition IFAP_File_init ::
  "string \<Rightarrow> string \<Rightarrow> pydict \<Rightarrow> string \<Rightarrow> py_error + IFAP_File" where
  "IFAP_File_init file_path mode metadata buf =
     (if \<not> name_defined ''_file_path'' then Inl NameError
      else Inr \<lparr>contents = buf, file_path_attr = file_path, open_mode = mode,
                metadata_attr = metadata\<rparr>)"

text \<open>\<open>IFAP.open\<close>; \<open>mode.replace('+', 'w')\<close> is a map over the characters.\<close>

definition IFAP_open :: "IFAP \<Rightarrow> string \<Rightarrow> string \<Rightarrow> py_error + IFAP_File" where
  "IFAP_open self file_path mode =
     (let rd = (CHR ''r'' \<in> set mode \<or> CHR ''a'' \<in> set mode);
          mode' = (if rd then map (\<lambda>c. if c = CHR ''+'' then CHR ''w'' else c) mode else mode);
          buf = (if rd then (case map_of (unwritten self) file_path of
                               Some c \<Rightarrow> c
                             | None \<Rightarrow> [])
                 else [])
      in IFAP_File_init file_path mode' [] buf)"

section \<open>Notions the properties are stated with\<close>

text \<open>
  What the loop of \<open>synchronize\<close> makes of one fetch response, read off the branches
  of \<open>scan\<close>: the message is broken (the fetch failed or the \<open>try\<close> block raised an
  exception its \<open>except\<close> clause names), an exception leaves the loop, the message is
  a snapshot, or it is a file object for a key of \<open>_tree\<close>.
\<close>

datatype verdict = Broken | Raises py_error | Snapshot | File pykey pydict

definition classify :: "pylib \<Rightarrow> IFAP_Config \<Rightarrow> string \<times> fetch_item list \<Rightarrow> verdict" where
  "classify L cfg resp =
     (if fst resp \<noteq> ''OK'' then Broken
      else
        (case parse_message L cfg (snd resp) of
           Inl e \<Rightarrow> if caught e then Broken else Raises e
         | Inr (file_path, metadata) \<Rightarrow>
             if file_path = JStr SNAPSHOT_FILE_PATH then Snapshot
             else (case py_key file_path of
                     Inl e \<Rightarrow> Raises e
                   | Inr k \<Rightarrow> File k metadata)))"

text \<open>The message behind a fetch response is a file object that names the key \<open>k\<close>.\<close>

definition names :: "pylib \<Rightarrow> IFAP_Config \<Rightarrow> string \<times> fetch_item list \<Rightarrow> pykey \<Rightarrow> bool" where
  "names L cfg resp k = (case classify L cfg resp of File k' md \<Rightarrow> k' = k | _ \<Rightarrow> False)"

text \<open>
  An index is consistent with a backend when the sequence number of each entry is
  that of a message which names the entry's key.
\<close>

definition consistent :: "pylib \<Rightarrow> IFAP_Config \<Rightarrow> imap \<Rightarrow> index \<Rightarrow> bool" where
  "consistent L cfg B t = list_all (\<lambda>e. names L cfg (imap_fetch B (fst (snd e))) (fst e)) t"

text \<open>
  One pass through the body of the loop of \<open>synchronize\<close>: the exception that
  leaves the loop, or the variables after the pass. \<open>scan\<close> is this step, repeated
  (lemma \<open>scan_Cons_step\<close>).
\<close>

definition scan_step :: "pylib \<Rightarrow> IFAP_Config \<Rightarrow> imap \<Rightarrow> int \<Rightarrow> scan_state \<Rightarrow> py_error + scan_state" where
  "scan_step L cfg B seq st =
     (if seq \<in> s_to_delete st then Inr st
      else (case classify L cfg (imap_fetch B seq) of
              Broken \<Rightarrow> Inr (st\<lparr>s_broken := insert seq (s_broken st)\<rparr>)
            | Raises e \<Rightarrow> Inl e
            | Snapshot \<Rightarrow> Inr st
            | File k md \<Rightarrow>
                if latest_seq (s_tree st) k \<ge> seq then Inr st
                else Inr (st\<lparr>s_to_delete :=
                              (case map_of (s_tree st) k of
                                 None \<Rightarrow> s_to_delete st
                               | Some e \<Rightarrow> insert (fst e) (s_to_delete st)),
                           s_tree := AList.update k (seq, strip_transport md) (s_tree st)\<rparr>)))"

text \<open>
  A message is quiet for an index when a pass over it with an empty \<open>to_delete\<close>
  changes neither the index nor \<open>to_delete\<close> and raises nothing.
\<close>

definition quiet :: "pylib \<Rightarrow> IFAP_Config \<Rightarrow> imap \<Rightarrow> index \<Rightarrow> int \<Rightarrow> bool" where
  "quiet L cfg B t x =
     (case classify L cfg (imap_fetch B x) of
        File k md \<Rightarrow> x \<le> latest_seq t k
      | Raises e \<Rightarrow> False
      | _ \<Rightarrow> True)"

text \<open>
  Every sequence number in \<open>to_delete\<close> belongs to a message whose key the index
  holds at a higher sequence number.
\<close>

definition superseded :: "pylib \<Rightarrow> IFAP_Config \<Rightarrow> imap \<Rightarrow> scan_state \<Rightarrow> bool" where
  "superseded L cfg B st \<longleftrightarrow>
     (\<forall>d \<in> s_to_delete st. \<exists>q. names L cfg (imap_fetch B d) q \<and> d < latest_seq (s_tree st) q)"

text \<open>
  A folder as a list of messages, each the sequence number the server gave it and
  the response a fetch of it gets. A backend serves the folder when its fetch
  responses are those of the folder and its search data, where it converts, lists
  the folder's sequence numbers.
\<close>

type_synonym folder = "(int \<times> (string \<times> fetch_item list)) list"

definition serves :: "pylib \<Rightarrow> imap \<Rightarrow> folder \<Rightarrow> bool" where
  "serves L B mb \<longleftrightarrow>
     list_all (\<lambda>m. imap_fetch B (fst m) = snd m) mb
     \<and> (case ints_of L (split_on CHR '' '' (snd (imap_search B))) of
          None \<Rightarrow> True
        | Some is \<Rightarrow> set is = set (map fst mb))"

text \<open>
  The states a folder and an engine reach from an empty folder and an empty index:
  anyone appends a message, which gets a sequence number above all earlier ones, or
  the engine runs \<open>synchronize\<close> against a backend that serves the folder (the call
  may raise).
\<close>

inductive reachable :: "pylib \<Rightarrow> folder \<Rightarrow> IFAP \<Rightarrow> bool" for L :: pylib where
  start: "tree self = [] \<Longrightarrow> reachable L [] self"
| append: "reachable L mb self \<Longrightarrow> \<forall>s \<in> set (map fst mb). s < n
           \<Longrightarrow> reachable L (mb @ [(n, r)]) self"
| sync: "reachable L mb self \<Longrightarrow> serves L B mb
         \<Longrightarrow> reachable L mb (ifap (synchronize L self B))"

text \<open>The highest sequence number among the messages of a folder that name a key.\<close>

definition latest_named :: "pylib \<Rightarrow> IFAP_Config \<Rightarrow> folder \<Rightarrow> pykey \<Rightarrow> int" where
  "latest_named L cfg mb k = Max (set (map fst (filter (\<lambda>m. names L cfg (snd m) k) mb)))"

text \<open>
  The specification's tombstone is a record whose metadata has \<open>del\<close> true. The
  engine has no such notion; the two definitions below state what the
  specification expects of the index.
\<close>

definition is_tombstone :: "pydict \<Rightarrow> bool" where
  "is_tombstone md \<longleftrightarrow> map_of md ''del'' = Some (JBool True)"

definition latest_live :: "pylib \<Rightarrow> IFAP_Config \<Rightarrow> folder \<Rightarrow> pykey \<Rightarrow> int" where
  "latest_live L cfg mb k =
     Max (set (map fst (filter (\<lambda>m. case classify L cfg (snd m) of
                                      File k' md \<Rightarrow> k' = k \<and> \<not> is_tombstone md
                                    | _ \<Rightarrow> False) mb)))"





text \<open>The append of a pending path succeeds.\<close>

definition append_ok :: "pylib \<Rightarrow> imap \<Rightarrow> IFAP_Config \<Rightarrow> string \<Rightarrow> string \<times> string \<Rightarrow> bool" where
  "append_ok L B cfg folder pb =
     (case encode_object L cfg (fst pb) (snd pb) [] of
        Inl e \<Rightarrow> False
      | Inr eml \<Rightarrow> fst (imap_append B folder eml) = ''OK'')"

text \<open>The line \<open>flush\<close> prints for a pending path whose append fails.\<close>

definition failed_line :: "pylib \<Rightarrow> imap \<Rightarrow> IFAP_Config \<Rightarrow> string \<Rightarrow> string \<times> string \<Rightarrow> string" where
  "failed_line L B cfg folder pb =
     (case encode_object L cfg (fst pb) (snd pb) [] of
        Inl e \<Rightarrow> []
      | Inr eml \<Rightarrow> ''Failed: '' @ snd (imap_append B folder eml))"

section \<open>A library instance for evaluation\<close>

text \<open>
  For evaluating the model on concrete folders: decimal numerals for \<open>int\<close>, a header
  parser for well-formed messages (the value of a header is the rest of its line and
  its continuation lines), a JSON reader that knows the texts used in this file, and
  a Fernet that tags the plaintext with the key. Each agrees with the real function
  on the inputs it is given in this file.
\<close>

definition digit_val :: "char \<Rightarrow> int option" where
  "digit_val c =
     (if (48::nat) \<le> of_char c \<and> (of_char c :: nat) \<le> 57
      then Some (int (of_char c) - 48) else None)"

fun digits_val :: "int \<Rightarrow> string \<Rightarrow> int option" where
  "digits_val acc [] = Some acc"
| "digits_val acc (c # cs) =
     (case digit_val c of None \<Rightarrow> None | Some d \<Rightarrow> digits_val (10 * acc + d) cs)"

definition decimal :: "string \<Rightarrow> int option" where
  "decimal s = (if s = [] then None else digits_val 0 s)"

text \<open>
  The header lines of a message, each with its continuation lines, up to the first
  empty line.
\<close>

fun header_lines :: "string list \<Rightarrow> string list \<Rightarrow> string list" where
  "header_lines [] acc = rev acc"
| "header_lines (l # ls) acc =
     (if strip l = [] then rev acc
      else if is_space (hd l)
      then (case acc of
              [] \<Rightarrow> []
            | h # hs \<Rightarrow> header_lines ls ((h @ [CHR 0x0A] @ l) # hs))
      else header_lines ls (l # acc))"

definition header_named :: "string \<Rightarrow> string \<Rightarrow> bool" where
  "header_named name h \<longleftrightarrow> take (length name + 1) h = name @ '':''"

definition find_header :: "string \<Rightarrow> string \<Rightarrow> string option" where
  "find_header text name =
     (case filter (header_named name) (header_lines (split_on CHR 0x0A text) []) of
        [] \<Rightarrow> None
      | h # _ \<Rightarrow> Some (drop (length name + 1) h))"

definition tag_encrypt :: "string \<Rightarrow> string \<Rightarrow> string" where
  "tag_encrypt k d = ''gAAAAA'' @ k @ '':'' @ d"

definition tag_decrypt :: "string \<Rightarrow> string \<Rightarrow> string option" where
  "tag_decrypt k t =
     (if take (length k + 7) t = ''gAAAAA'' @ k @ '':'' then Some (drop (length k + 7) t)
      else None)"

definition CRLF :: string where
  "CRLF = [CHR 0x0D, CHR 0x0A]"

definition eval_lib0 :: pylib where
  "eval_lib0 =
     \<lparr>py_int = decimal, email_header = find_header, json_loads = (\<lambda>s. None),
      json_nonascii = (\<lambda>s. s), fernet_encrypt = tag_encrypt, fernet_decrypt = tag_decrypt,
      sha256_digest = (\<lambda>s. s), urlsafe_b64encode = (\<lambda>s. s), b64encode = (\<lambda>s. s)\<rparr>"

text \<open>A JSON text as it stands in the X-IFAP header of a plaintext message.\<close>

definition folded :: "json \<Rightarrow> string" where
  "folded v = str_replace_nl (CRLF @ '' '') (json_dumps eval_lib0 v)"

definition json_table :: "(string \<times> json) list" where
  \<open>json_table =
     [(''{"fn": "a"}'', JObj [(''fn'', JStr ''a'')]),
      (''{"fn": "b"}'', JObj [(''fn'', JStr ''b'')]),
      (''{"fn": "a", "del": true}'', JObj [(''fn'', JStr ''a''), (''del'', JBool True)]),
      (''{"fn": "IFAP/metadata.json", "snap": 1}'',
         JObj [(''fn'', JStr ''IFAP/metadata.json''), (''snap'', JInt 1)]),
      (''[]'', JArr []),
      (folded (JObj [(''fn'', JStr ''d/a''), (''bytes'', JInt 5), (''versions'', JInt 2)]),
         JObj [(''fn'', JStr ''d/a''), (''bytes'', JInt 5), (''versions'', JInt 2)]),
      (folded (JObj [(''fn'', JStr ''b''), (''bytes'', JInt 1)]),
         JObj [(''fn'', JStr ''b''), (''bytes'', JInt 1)])]\<close>

definition eval_lib :: pylib where
  "eval_lib = eval_lib0\<lparr>json_loads := map_of json_table\<rparr>"

text \<open>
  The defaults of \<open>_IFAP_Config\<close> and a fresh \<open>IFAP\<close> object on a folder, as the two
  constructors build them.
\<close>

definition default_config :: IFAP_Config where
  "default_config =
     \<lparr>buffering_max_bytes = 102400, buffering = False, encrypt = False,
      fernet = None, key = None\<rparr>"

definition IFAP_init :: "string \<Rightarrow> IFAP" where
  "IFAP_init folder =
     \<lparr>config = default_config, base_folder = folder, sstack = [], unwritten = [],
      unwritten_bytes = 0, tree = []\<rparr>"

text \<open>A fetch response that carries a message with the given X-IFAP header.\<close>

definition fetched :: "string \<Rightarrow> string \<times> fetch_item list" where
  "fetched x = (''OK'', [Part ''1 (BODY[]<0> {1024}'' (''X-IFAP: '' @ x @ CRLF @ CRLF)])"

text \<open>A backend that refuses \<open>select\<close>.\<close>

definition imap_down :: imap where
  "imap_down =
     \<lparr>imap_select = (\<lambda>f. ''NO''), imap_search = (''NO'', []),
      imap_fetch = (\<lambda>s. (''NO'', [])), imap_append = (\<lambda>f m. (''NO'', []))\<rparr>"

text \<open>
  A backend for a folder given by its search data and its messages; it accepts
  every append. A fetch of a number that is not in the folder fails.
\<close>

definition imap_of :: "string \<Rightarrow> folder \<Rightarrow> imap" where
  "imap_of seqs mb =
     \<lparr>imap_select = (\<lambda>f. ''OK''), imap_search = (''OK'', seqs),
      imap_fetch = (\<lambda>s. case map_of mb s of Some r \<Rightarrow> r | None \<Rightarrow> (''NO'', [])),
      imap_append = (\<lambda>f m. (''OK'', []))\<rparr>"

text \<open>Message 3 is a snapshot, message 2 a file, message 1 cannot be fetched.\<close>

definition folder_snapshot :: folder where
  \<open>folder_snapshot =
     [(1, (''NO'', [])),
      (2, fetched ''{"fn": "a"}''),
      (3, fetched ''{"fn": "IFAP/metadata.json", "snap": 1}'')]\<close>

text \<open>The fetch of message 2 answers OK with no data, as imaplib does for a
  message that is gone.\<close>

definition folder_gone :: folder where
  \<open>folder_gone = [(1, fetched ''{"fn": "a"}''), (2, (''OK'', [NoneItem]))]\<close>

text \<open>Message 2 marks the file of message 1 as deleted.\<close>

definition folder_tombstone :: folder where
  \<open>folder_tombstone =
     [(1, fetched ''{"fn": "a"}''), (2, fetched ''{"fn": "a", "del": true}'')]\<close>

text \<open>Two files, and an index whose entry for \<open>b\<close> points at the message of \<open>a\<close>.\<close>

definition folder_two :: folder where
  \<open>folder_two = [(3, fetched ''{"fn": "a"}''), (5, fetched ''{"fn": "b"}'')]\<close>

definition stale_index :: IFAP where
  "stale_index = (IFAP_init ''INBOX'')\<lparr>tree := [(KStr ''b'', (3, []))]\<rparr>"

text \<open>An index whose entry for \<open>a\<close> points at the message of \<open>a\<close>.\<close>

definition known_index :: IFAP where
  "known_index = (IFAP_init ''INBOX'')\<lparr>tree := [(KStr ''a'', (3, []))]\<rparr>"

text \<open>One staged file, and a backend that refuses every append.\<close>

definition staged :: IFAP where
  "staged = (IFAP_init ''INBOX'')\<lparr>unwritten := [(''a'', ''hello'')], unwritten_bytes := 5\<rparr>"

definition imap_full :: imap where
  "imap_full = (imap_of [] [])\<lparr>imap_append := (\<lambda>f m. (''NO'', ''quota''))\<rparr>"

text \<open>Two staged files, and a backend that accepts only the message of path \<open>a\<close>.\<close>

definition staged_two :: IFAP where
  "staged_two =
     (IFAP_init ''INBOX'')\<lparr>unwritten := [(''a'', ''hello''), (''b'', ''no'')],
                            unwritten_bytes := 7\<rparr>"

definition imap_picky :: imap where
  "imap_picky =
     (imap_of [] [])
       \<lparr>imap_append :=
          (\<lambda>f m. if map_option strip (find_header m ''Subject'') = Some ''a''
                  then (''OK'', []) else (''NO'', ''quota''))\<rparr>"

text \<open>
  A session on a folder with one message, whose backend accepts an append only when
  the message has the subject \<open>a\<close>: one file is staged, the session is entered, a key
  is set inside it, and the session is left.
\<close>

definition imap_session :: imap where
  \<open>imap_session =
     (imap_of ''1'' [(1, fetched ''{"fn": "a"}'')])
       \<lparr>imap_append :=
          (\<lambda>f m. if map_option strip (find_header m ''Subject'') = Some ''a''
                  then (''OK'', []) else (''NO'', ''quota''))\<rparr>\<close>

text \<open>The Subject header of an encoded message.\<close>

definition subject_of :: "py_error + string \<Rightarrow> string option" where
  "subject_of r = (case r of Inl e \<Rightarrow> None | Inr eml \<Rightarrow> map_option strip (find_header eml ''Subject''))"

definition session_entered :: IFAP where
  "session_entered = ifap (IFAP_enter eval_lib staged imap_session)"

definition session_keyed :: IFAP where
  "session_keyed = set_encryption_key eval_lib session_entered ''hunter2''"

definition session_left :: IFAP where
  "session_left = snd (IFAP_exit eval_lib session_keyed imap_session imap_session)"

text \<open>The configuration after a key was set.\<close>

definition encrypting :: IFAP_Config where
  "encrypting = config (set_encryption_key eval_lib (IFAP_init ''INBOX'') ''hunter2'')"

section \<open>Session-level errors\<close>

text \<open>
  C3. If \<open>select\<close> or \<open>search\<close> answers with a status other than OK, \<open>synchronize\<close>
  raises IOError and the object, the \<open>_tree\<close> index included, is as it was.
\<close>

theorem synchronize_session_error:
  assumes "imap_select B (base_folder self) \<noteq> ''OK'' \<or> fst (imap_search B) \<noteq> ''OK''"
  shows "exc (synchronize L self B) = Some IOError
         \<and> ifap (synchronize L self B) = self
         \<and> tree (ifap (synchronize L self B)) = tree self"
  using assms by (auto simp: synchronize_def)

theorem synchronize_session_error_witness:
  "imap_select imap_down (base_folder (IFAP_init ''INBOX'')) \<noteq> ''OK''
   \<and> exc (synchronize eval_lib (IFAP_init ''INBOX'') imap_down) = Some IOError
   \<and> ifap (synchronize eval_lib (IFAP_init ''INBOX'') imap_down) = IFAP_init ''INBOX''
   \<and> tree (ifap (synchronize eval_lib (IFAP_init ''INBOX'') imap_down))
       = tree (IFAP_init ''INBOX'')"
proof -
  have h: "imap_select imap_down (base_folder (IFAP_init ''INBOX'')) \<noteq> ''OK''"
    by (simp add: imap_down_def)
  show ?thesis
    using h synchronize_session_error [of imap_down "IFAP_init ''INBOX''" eval_lib] by simp
qed

section \<open>The loop of synchronize, message by message\<close>

lemma scan_Cons_classify:
  "scan L cfg B (seq # rest) st =
     (if seq \<in> s_to_delete st then scan L cfg B rest st
      else (case classify L cfg (imap_fetch B seq) of
              Broken \<Rightarrow> scan L cfg B rest (st\<lparr>s_broken := insert seq (s_broken st)\<rparr>)
            | Raises e \<Rightarrow> (Some e, st)
            | Snapshot \<Rightarrow> scan L cfg B rest st
            | File k md \<Rightarrow>
                if latest_seq (s_tree st) k \<ge> seq then scan L cfg B rest st
                else scan L cfg B rest
                       (st\<lparr>s_to_delete :=
                              (case map_of (s_tree st) k of
                                 None \<Rightarrow> s_to_delete st
                               | Some e \<Rightarrow> insert (fst e) (s_to_delete st)),
                           s_tree := AList.update k (seq, strip_transport md) (s_tree st)\<rparr>)))"
  by (simp add: classify_def split: sum.splits prod.splits)

text \<open>
  A message whose fetch answers with a status other than OK, or whose \<open>try\<close> block
  raises one of the exceptions the \<open>except\<close> clause names, is put into \<open>broken\<close>;
  the index and \<open>to_delete\<close> stay as they are and the loop goes on.
\<close>

lemma scan_broken_continues:
  assumes "seq \<notin> s_to_delete st"
    and "fst (imap_fetch B seq) \<noteq> ''OK''
         \<or> (\<exists>e. parse_message L cfg (snd (imap_fetch B seq)) = Inl e \<and> caught e)"
  shows "scan L cfg B (seq # rest) st
         = scan L cfg B rest (st\<lparr>s_broken := insert seq (s_broken st)\<rparr>)"
  using assms by auto

text \<open>
  C2. The \<open>except\<close> clause does not name TypeError. A fetch that answers OK with
  \<open>[None]\<close> makes \<open>data[0][1]\<close> raise it: \<open>synchronize\<close> raises TypeError to its
  caller, the message is not put into \<open>broken\<close>, and message 1 below it is never
  scanned.
\<close>

theorem synchronize_type_error_escapes:
  "exc (synchronize eval_lib (IFAP_init ''INBOX'') (imap_of ''1 2'' folder_gone)) = Some TypeError
   \<and> broken (synchronize eval_lib (IFAP_init ''INBOX'') (imap_of ''1 2'' folder_gone)) = {}
   \<and> tree (ifap (synchronize eval_lib (IFAP_init ''INBOX'') (imap_of ''1 2'' folder_gone))) = []"
  by code_simp

section \<open>Snapshots\<close>

text \<open>
  C6, as the code has it. A message that names the reserved snapshot path changes
  nothing: the index, \<open>broken\<close> and \<open>to_delete\<close> stay as they are, and the loop goes
  on with the lower sequence numbers as if the message were not there.
\<close>

theorem scan_snapshot_ignored:
  assumes "seq \<notin> s_to_delete st"
    and "classify L cfg (imap_fetch B seq) = Snapshot"
  shows "scan L cfg B (seq # rest) st = scan L cfg B rest st"
  using assms by (simp add: scan_Cons_classify del: scan.simps)

theorem scan_snapshot_ignored_witness:
  "3 \<notin> s_to_delete \<lparr>s_tree = [], s_broken = {}, s_to_delete = {}\<rparr>
   \<and> classify eval_lib default_config (imap_fetch (imap_of ''1 2 3'' folder_snapshot) 3)
       = Snapshot
   \<and> scan eval_lib default_config (imap_of ''1 2 3'' folder_snapshot) [3, 2, 1]
         \<lparr>s_tree = [], s_broken = {}, s_to_delete = {}\<rparr>
       = scan eval_lib default_config (imap_of ''1 2 3'' folder_snapshot) [2, 1]
         \<lparr>s_tree = [], s_broken = {}, s_to_delete = {}\<rparr>"
proof -
  have h1: "3 \<notin> s_to_delete \<lparr>s_tree = [], s_broken = {}, s_to_delete = {}\<rparr>"
    by simp
  have h2: "classify eval_lib default_config
              (imap_fetch (imap_of ''1 2 3'' folder_snapshot) 3) = Snapshot"
    by code_simp
  from scan_snapshot_ignored [OF h1 h2, of "[2, 1]"] h1 h2 show ?thesis
    by blast
qed

text \<open>
  The claim as stated fails: with a snapshot at 3, the scan still fetches message 1
  (it ends up in \<open>broken\<close>) and indexes message 2, and nothing comes from the
  snapshot.
\<close>

theorem snapshot_not_adopted:
  "broken (synchronize eval_lib (IFAP_init ''INBOX'') (imap_of ''1 2 3'' folder_snapshot)) = {1}
   \<and> tree (ifap (synchronize eval_lib (IFAP_init ''INBOX'') (imap_of ''1 2 3'' folder_snapshot)))
       = [(KStr ''a'', (2, []))]"
  by code_simp

section \<open>Invariants of the loop\<close>

lemma scan_Cons_step:
  "scan L cfg B (seq # rest) st =
     (case scan_step L cfg B seq st of
        Inl e \<Rightarrow> (Some e, st)
      | Inr st1 \<Rightarrow> scan L cfg B rest st1)"
  by (simp add: scan_Cons_classify scan_step_def del: scan.simps split: verdict.splits)

lemma consistent_iff:
  "consistent L cfg B t \<longleftrightarrow> (\<forall>k s md. (k, (s, md)) \<in> set t \<longrightarrow> names L cfg (imap_fetch B s) k)"
proof -
  have "consistent L cfg B t \<longleftrightarrow> (\<forall>e \<in> set t. names L cfg (imap_fetch B (fst (snd e))) (fst e))"
    by (simp add: consistent_def list_all_iff)
  also have "\<dots> \<longleftrightarrow> (\<forall>k s md. (k, (s, md)) \<in> set t \<longrightarrow> names L cfg (imap_fetch B s) k)"
    by force
  finally show ?thesis .
qed

lemma set_update_subset: "set (AList.update k v al) \<subseteq> insert (k, v) (set al)"
  by (induction al) auto

lemma latest_seq_update:
  "latest_seq (AList.update k v t) k' = (if k' = k then fst v else latest_seq t k')"
  by (simp add: latest_seq_def update_conv')

lemma latest_seq_entry: "map_of t k = Some (s, md) \<Longrightarrow> latest_seq t k = s"
  by (simp add: latest_seq_def)

lemma names_classify: "names L cfg r k \<longleftrightarrow> (\<exists>md. classify L cfg r = File k md)"
  by (auto simp: names_def split: verdict.splits)

lemma scan_step_invariant:
  assumes step: "scan_step L cfg B x st = Inr st1"
    and cons: "consistent L cfg B (s_tree st)"
    and sup: "superseded L cfg B st"
  shows "consistent L cfg B (s_tree st1)"
    and "superseded L cfg B st1"
    and "\<And>k. latest_seq (s_tree st) k \<le> latest_seq (s_tree st1) k"
    and "quiet L cfg B (s_tree st1) x"
    and "fst ` snd ` set (s_tree st1) \<subseteq> insert x (fst ` snd ` set (s_tree st))"
proof -
  consider (skip) "x \<in> s_to_delete st"
    | (broken) "x \<notin> s_to_delete st" "classify L cfg (imap_fetch B x) = Broken"
    | (snap) "x \<notin> s_to_delete st" "classify L cfg (imap_fetch B x) = Snapshot"
    | (old) k md where "x \<notin> s_to_delete st" "classify L cfg (imap_fetch B x) = File k md"
        "x \<le> latest_seq (s_tree st) k"
    | (new) k md where "x \<notin> s_to_delete st" "classify L cfg (imap_fetch B x) = File k md"
        "latest_seq (s_tree st) k < x"
    using step
    by (cases "classify L cfg (imap_fetch B x)") (auto simp: scan_step_def split: if_splits)
  then have "consistent L cfg B (s_tree st1) \<and> superseded L cfg B st1
      \<and> (\<forall>k. latest_seq (s_tree st) k \<le> latest_seq (s_tree st1) k)
      \<and> quiet L cfg B (s_tree st1) x
      \<and> fst ` snd ` set (s_tree st1) \<subseteq> insert x (fst ` snd ` set (s_tree st))"
  proof cases
    case skip
    then have eq: "st1 = st" using step by (simp add: scan_step_def)
    from skip sup obtain q where "names L cfg (imap_fetch B x) q" "x < latest_seq (s_tree st) q"
      by (auto simp: superseded_def)
    then have "quiet L cfg B (s_tree st) x"
      by (auto simp: quiet_def names_classify)
    then show ?thesis using eq cons sup by auto
  next
    case broken
    then have eq: "st1 = st\<lparr>s_broken := insert x (s_broken st)\<rparr>"
      using step by (simp add: scan_step_def)
    show ?thesis using eq cons sup broken by (auto simp: quiet_def superseded_def)
  next
    case snap
    then have eq: "st1 = st" using step by (simp add: scan_step_def)
    show ?thesis using eq cons sup snap by (auto simp: quiet_def)
  next
    case old
    then have eq: "st1 = st" using step by (simp add: scan_step_def)
    show ?thesis using eq cons sup old by (auto simp: quiet_def)
  next
    case new
    let ?t1 = "AList.update k (x, strip_transport md) (s_tree st)"
    let ?d1 = "case map_of (s_tree st) k of None \<Rightarrow> s_to_delete st
               | Some e \<Rightarrow> insert (fst e) (s_to_delete st)"
    have eq: "st1 = st\<lparr>s_to_delete := ?d1, s_tree := ?t1\<rparr>"
      using step new by (simp add: scan_step_def)
    have nm: "names L cfg (imap_fetch B x) k"
      using new(2) by (simp add: names_classify)
    have mono: "latest_seq (s_tree st) k' \<le> latest_seq ?t1 k'" for k'
      using new(3) by (simp add: latest_seq_update)
    have c1: "consistent L cfg B ?t1"
      using cons nm set_update_subset [of k "(x, strip_transport md)" "s_tree st"]
      by (auto simp: consistent_iff)
    have s1: "superseded L cfg B st1"
      unfolding superseded_def
    proof
      fix d assume "d \<in> s_to_delete st1"
      then have "d \<in> s_to_delete st \<or> (\<exists>md0. map_of (s_tree st) k = Some (d, md0))"
        by (auto simp: eq split: option.splits)
      then show "\<exists>q. names L cfg (imap_fetch B d) q \<and> d < latest_seq (s_tree st1) q"
      proof
        assume "d \<in> s_to_delete st"
        then obtain q where q: "names L cfg (imap_fetch B d) q" "d < latest_seq (s_tree st) q"
          using sup by (auto simp: superseded_def)
        then have "d < latest_seq ?t1 q" using mono [of q] by linarith
        then show ?thesis using q(1) by (auto simp: eq)
      next
        assume "\<exists>md0. map_of (s_tree st) k = Some (d, md0)"
        then obtain md0 where m: "map_of (s_tree st) k = Some (d, md0)" by blast
        then have "(k, (d, md0)) \<in> set (s_tree st)" by (rule map_of_SomeD)
        then have "names L cfg (imap_fetch B d) k" using cons by (auto simp: consistent_iff)
        moreover have "d < latest_seq ?t1 k"
          using new(3) latest_seq_entry [OF m] by (simp add: latest_seq_update)
        ultimately show ?thesis by (auto simp: eq)
      qed
    qed
    have q1: "quiet L cfg B ?t1 x"
      using new(2) by (simp add: quiet_def latest_seq_update)
    have sub: "fst ` snd ` set ?t1 \<subseteq> insert x (fst ` snd ` set (s_tree st))"
      using set_update_subset [of k "(x, strip_transport md)" "s_tree st"] by force
    show ?thesis using c1 s1 mono q1 sub by (simp add: eq)
  qed
  then show "consistent L cfg B (s_tree st1)"
    and "superseded L cfg B st1"
    and "\<And>k. latest_seq (s_tree st) k \<le> latest_seq (s_tree st1) k"
    and "quiet L cfg B (s_tree st1) x"
    and "fst ` snd ` set (s_tree st1) \<subseteq> insert x (fst ` snd ` set (s_tree st))"
    by auto
qed

lemma scan_step_raises:
  assumes "scan_step L cfg B x st = Inl e"
  shows "classify L cfg (imap_fetch B x) = Raises e"
  using assms by (auto simp: scan_step_def split: if_splits verdict.splits)

lemma quiet_mono:
  assumes "quiet L cfg B t x" and "\<And>k. latest_seq t k \<le> latest_seq t' k"
  shows "quiet L cfg B t' x"
proof (cases "classify L cfg (imap_fetch B x)")
  case (File k md)
  then show ?thesis using assms(1) assms(2) [of k] by (simp add: quiet_def)
qed (use assms(1) in \<open>simp_all add: quiet_def\<close>)


lemma scan_invariant:
  assumes "scan L cfg B xs st = (e, st')"
    and "consistent L cfg B (s_tree st)"
    and "superseded L cfg B st"
  shows "consistent L cfg B (s_tree st')
     \<and> (\<forall>k. latest_seq (s_tree st) k \<le> latest_seq (s_tree st') k)
     \<and> fst ` snd ` set (s_tree st') \<subseteq> set xs \<union> fst ` snd ` set (s_tree st)
     \<and> (e = None \<longrightarrow> (\<forall>x \<in> set xs. quiet L cfg B (s_tree st') x))
     \<and> (\<forall>err. e = Some err \<longrightarrow>
           (\<exists>ys y zs. xs = ys @ y # zs \<and> (\<forall>x \<in> set ys. quiet L cfg B (s_tree st') x)
              \<and> classify L cfg (imap_fetch B y) = Raises err))"
  using assms
proof (induction xs arbitrary: st)
  case Nil
  then show ?case by simp
next
  case (Cons x xs)
  show ?case
  proof (cases "scan_step L cfg B x st")
    case (Inl e0)
    then have res: "e = Some e0" "st' = st"
      using Cons.prems(1) by (simp_all add: scan_Cons_step del: scan.simps)
    have "classify L cfg (imap_fetch B x) = Raises e0"
      using Inl by (rule scan_step_raises)
    then have "\<exists>ys y zs. x # xs = ys @ y # zs
        \<and> (\<forall>x \<in> set ys. quiet L cfg B (s_tree st') x)
        \<and> classify L cfg (imap_fetch B y) = Raises e0"
      by (intro exI [of _ "[]"] exI [of _ x] exI [of _ xs]) simp
    then show ?thesis using res Cons.prems(2) by auto
  next
    case (Inr st1)
    then have run: "scan L cfg B xs st1 = (e, st')"
      using Cons.prems(1) by (simp add: scan_Cons_step del: scan.simps)
    note step = scan_step_invariant [OF Inr Cons.prems(2) Cons.prems(3)]
    from Cons.IH [OF run step(1) step(2)]
    have ih1: "consistent L cfg B (s_tree st')"
      and ih2: "\<And>k. latest_seq (s_tree st1) k \<le> latest_seq (s_tree st') k"
      and ih3: "fst ` snd ` set (s_tree st') \<subseteq> set xs \<union> fst ` snd ` set (s_tree st1)"
      and ih4: "e = None \<Longrightarrow> \<forall>x \<in> set xs. quiet L cfg B (s_tree st') x"
      and ih5: "\<And>err. e = Some err \<Longrightarrow>
           \<exists>ys y zs. xs = ys @ y # zs \<and> (\<forall>x \<in> set ys. quiet L cfg B (s_tree st') x)
              \<and> classify L cfg (imap_fetch B y) = Raises err"
      by blast+
    have mono: "latest_seq (s_tree st) k \<le> latest_seq (s_tree st') k" for k
      using step(3) [of k] ih2 [of k] by linarith
    have qx: "quiet L cfg B (s_tree st') x"
      using step(4) ih2 by (rule quiet_mono)
    have sub: "fst ` snd ` set (s_tree st') \<subseteq> set (x # xs) \<union> fst ` snd ` set (s_tree st)"
      using ih3 step(5) by auto
    have exn: "\<exists>ys y zs. x # xs = ys @ y # zs \<and> (\<forall>x \<in> set ys. quiet L cfg B (s_tree st') x)
              \<and> classify L cfg (imap_fetch B y) = Raises err" if "e = Some err" for err
    proof -
      from ih5 [OF that] obtain ys y zs where
        "xs = ys @ y # zs" "\<forall>x \<in> set ys. quiet L cfg B (s_tree st') x"
        "classify L cfg (imap_fetch B y) = Raises err"
        by blast
      then show ?thesis
        using qx by (intro exI [of _ "x # ys"] exI [of _ y] exI [of _ zs]) simp
    qed
    show ?thesis
      using ih1 mono sub ih4 qx exn by simp
  qed
qed

lemma scan_step_quiet:
  assumes "quiet L cfg B (s_tree st) x" and "s_to_delete st = {}"
  shows "\<exists>b. scan_step L cfg B x st = Inr (st\<lparr>s_broken := b\<rparr>)"
proof (cases "classify L cfg (imap_fetch B x)")
  case Broken
  then have "scan_step L cfg B x st = Inr (st\<lparr>s_broken := insert x (s_broken st)\<rparr>)"
    using assms(2) by (simp add: scan_step_def)
  then show ?thesis ..
next
  case (Raises e)
  then show ?thesis using assms(1) by (simp add: quiet_def)
next
  case Snapshot
  then have "scan_step L cfg B x st = Inr (st\<lparr>s_broken := s_broken st\<rparr>)"
    using assms(2) by (simp add: scan_step_def)
  then show ?thesis ..
next
  case (File k md)
  then have "scan_step L cfg B x st = Inr (st\<lparr>s_broken := s_broken st\<rparr>)"
    using assms by (simp add: scan_step_def quiet_def)
  then show ?thesis ..
qed

lemma scan_quiet:
  assumes "\<forall>x \<in> set ys. quiet L cfg B (s_tree st) x" and "s_to_delete st = {}"
  shows "\<exists>b. scan L cfg B (ys @ rest) st = scan L cfg B rest (st\<lparr>s_broken := b\<rparr>)"
  using assms
proof (induction ys arbitrary: st)
  case Nil
  have "scan L cfg B ([] @ rest) st = scan L cfg B rest (st\<lparr>s_broken := s_broken st\<rparr>)"
    by simp
  then show ?case ..
next
  case (Cons x ys)
  from Cons.prems obtain b where b: "scan_step L cfg B x st = Inr (st\<lparr>s_broken := b\<rparr>)"
    using scan_step_quiet [of L cfg B st x] by auto
  have "\<forall>x \<in> set ys. quiet L cfg B (s_tree (st\<lparr>s_broken := b\<rparr>)) x"
    and "s_to_delete (st\<lparr>s_broken := b\<rparr>) = {}"
    using Cons.prems by simp_all
  from Cons.IH [OF this] obtain b' where
    "scan L cfg B (ys @ rest) (st\<lparr>s_broken := b\<rparr>) = scan L cfg B rest (st\<lparr>s_broken := b'\<rparr>)"
    by auto
  then have "scan L cfg B ((x # ys) @ rest) st = scan L cfg B rest (st\<lparr>s_broken := b'\<rparr>)"
    using b by (simp add: scan_Cons_step del: scan.simps)
  then show ?case ..
qed

lemma scan_again:
  assumes "scan L cfg B xs \<lparr>s_tree = t, s_broken = {}, s_to_delete = {}\<rparr> = (e, st')"
    and "consistent L cfg B t"
  shows "\<exists>b. scan L cfg B xs \<lparr>s_tree = s_tree st', s_broken = {}, s_to_delete = {}\<rparr>
             = (e, \<lparr>s_tree = s_tree st', s_broken = b, s_to_delete = {}\<rparr>)"
proof -
  let ?st0 = "\<lparr>s_tree = t, s_broken = {}, s_to_delete = {}\<rparr>"
  let ?st1 = "\<lparr>s_tree = s_tree st', s_broken = {}, s_to_delete = {}\<rparr>"
  have sup: "superseded L cfg B ?st0" by (simp add: superseded_def)
  have c: "consistent L cfg B (s_tree ?st0)" using assms(2) by simp
  note inv = scan_invariant [OF assms(1) c sup]
  show ?thesis
  proof (cases e)
    case None
    with inv have "\<forall>x \<in> set xs. quiet L cfg B (s_tree ?st1) x" by simp
    from scan_quiet [OF this, of "[]"] obtain b where
      "scan L cfg B (xs @ []) ?st1 = scan L cfg B [] (?st1\<lparr>s_broken := b\<rparr>)" by auto
    then have "scan L cfg B xs ?st1 = (e, \<lparr>s_tree = s_tree st', s_broken = b, s_to_delete = {}\<rparr>)"
      using None by simp
    then show ?thesis ..
  next
    case (Some err)
    with inv obtain ys y zs where xs: "xs = ys @ y # zs"
      and q: "\<forall>x \<in> set ys. quiet L cfg B (s_tree ?st1) x"
      and r: "classify L cfg (imap_fetch B y) = Raises err"
      by auto
    from scan_quiet [OF q, of "y # zs"] obtain b where
      "scan L cfg B (ys @ y # zs) ?st1 = scan L cfg B (y # zs) (?st1\<lparr>s_broken := b\<rparr>)" by auto
    then have "scan L cfg B xs ?st1 = (e, \<lparr>s_tree = s_tree st', s_broken = b, s_to_delete = {}\<rparr>)"
      using r Some xs by (simp add: scan_Cons_classify del: scan.simps)
    then show ?thesis ..
  qed
qed

lemma synchronize_ifap:
  "ifap (synchronize L self B) = self\<lparr>tree := tree (ifap (synchronize L self B))\<rparr>"
  by (simp add: synchronize_def Let_def split: option.splits)

lemma synchronize_tree:
  "tree (ifap (synchronize L self B)) =
     (if imap_select B (base_folder self) \<noteq> ''OK'' \<or> fst (imap_search B) \<noteq> ''OK''
      then tree self
      else (case ints_of L (split_on CHR '' '' (snd (imap_search B))) of
              None \<Rightarrow> tree self
            | Some is \<Rightarrow> s_tree (snd (scan L (config self) B (rev (sort is))
                           \<lparr>s_tree = tree self, s_broken = {}, s_to_delete = {}\<rparr>))))"
  by (simp add: synchronize_def Let_def split: option.splits)

lemma synchronize_exc:
  "exc (synchronize L self B) =
     (if imap_select B (base_folder self) \<noteq> ''OK'' \<or> fst (imap_search B) \<noteq> ''OK''
      then Some IOError
      else (case ints_of L (split_on CHR '' '' (snd (imap_search B))) of
              None \<Rightarrow> Some ValueError
            | Some is \<Rightarrow> fst (scan L (config self) B (rev (sort is))
                           \<lparr>s_tree = tree self, s_broken = {}, s_to_delete = {}\<rparr>)))"
  by (simp add: synchronize_def Let_def split: option.splits)

section \<open>Idempotence\<close>

text \<open>
  C5, as the code has it. When the index is consistent with the folder (each entry
  points at a message that names the entry's key, as after any earlier
  \<open>synchronize\<close> on the folder, and as the empty index is), a second \<open>synchronize\<close>
  against the same backend leaves the index of the first, and raises what the
  first raised.
\<close>

theorem synchronize_idempotent:
  assumes "consistent L (config self) B (tree self)"
  shows "tree (ifap (synchronize L (ifap (synchronize L self B)) B))
           = tree (ifap (synchronize L self B))
         \<and> exc (synchronize L (ifap (synchronize L self B)) B) = exc (synchronize L self B)"
proof -
  let ?self1 = "ifap (synchronize L self B)"
  have s1: "?self1 = self\<lparr>tree := tree ?self1\<rparr>" by (rule synchronize_ifap)
  have cf: "config ?self1 = config self" "base_folder ?self1 = base_folder self"
    by (subst s1, simp)+
  show ?thesis
  proof (cases "imap_select B (base_folder self) \<noteq> ''OK'' \<or> fst (imap_search B) \<noteq> ''OK''")
    case True
    then show ?thesis by (simp add: synchronize_tree synchronize_exc cf)
  next
    case ok: False
    show ?thesis
    proof (cases "ints_of L (split_on CHR '' '' (snd (imap_search B)))")
      case None
      then show ?thesis using ok by (simp add: synchronize_tree synchronize_exc cf)
    next
      case (Some ns)
      let ?xs = "rev (sort ns)"
      obtain e st' where r: "scan L (config self) B ?xs
          \<lparr>s_tree = tree self, s_broken = {}, s_to_delete = {}\<rparr> = (e, st')"
        by (cases "scan L (config self) B ?xs \<lparr>s_tree = tree self, s_broken = {}, s_to_delete = {}\<rparr>")
      have t1: "tree ?self1 = s_tree st'" and e1: "exc (synchronize L self B) = e"
        using ok Some r by (simp_all add: synchronize_tree synchronize_exc)
      from scan_again [OF r assms] obtain b where
        "scan L (config self) B ?xs \<lparr>s_tree = s_tree st', s_broken = {}, s_to_delete = {}\<rparr>
           = (e, \<lparr>s_tree = s_tree st', s_broken = b, s_to_delete = {}\<rparr>)"
        by auto
      then show ?thesis
        using ok Some t1 e1 by (simp add: synchronize_tree [of L ?self1] synchronize_exc [of L ?self1] cf)
    qed
  qed
qed


theorem synchronize_idempotent_witness:
  "consistent eval_lib (config known_index) (imap_of ''3 5'' folder_two) (tree known_index)
   \<and> tree (ifap (synchronize eval_lib
               (ifap (synchronize eval_lib known_index (imap_of ''3 5'' folder_two)))
               (imap_of ''3 5'' folder_two)))
       = tree (ifap (synchronize eval_lib known_index (imap_of ''3 5'' folder_two)))
   \<and> tree (ifap (synchronize eval_lib known_index (imap_of ''3 5'' folder_two)))
       = [(KStr ''a'', (3, [])), (KStr ''b'', (5, []))]"
proof -
  have h: "consistent eval_lib (config known_index) (imap_of ''3 5'' folder_two)
             (tree known_index)"
    by code_simp
  have v: "tree (ifap (synchronize eval_lib known_index (imap_of ''3 5'' folder_two)))
             = [(KStr ''a'', (3, [])), (KStr ''b'', (5, []))]"
    by code_simp
  from synchronize_idempotent [OF h] h v show ?thesis
    by blast
qed

text \<open>
  The claim as stated, for every starting index, fails: with an entry for \<open>b\<close> that
  points at message 3, which names \<open>a\<close>, the first call replaces the entry by
  message 5 and skips message 3 as superseded; the second call indexes it.
\<close>

theorem synchronize_twice_differs:
  "tree (ifap (synchronize eval_lib stale_index (imap_of ''3 5'' folder_two)))
     = [(KStr ''b'', (5, []))]
   \<and> tree (ifap (synchronize eval_lib
               (ifap (synchronize eval_lib stale_index (imap_of ''3 5'' folder_two)))
               (imap_of ''3 5'' folder_two)))
     = [(KStr ''b'', (5, [])), (KStr ''a'', (3, []))]"
  by code_simp

section \<open>The index holds the latest message of each path\<close>

lemma servesD:
  assumes "serves L B mb" and "(s, r) \<in> set mb"
  shows "imap_fetch B s = r"
  using assms by (force simp: serves_def list_all_iff)

lemma reachable_invariant:
  assumes "reachable L mb self"
  shows "distinct (map fst mb)
     \<and> (\<forall>k s md. (k, (s, md)) \<in> set (tree self)
          \<longrightarrow> (\<exists>r. (s, r) \<in> set mb \<and> names L (config self) r k))"
  using assms
proof (induction rule: reachable.induct)
  case (start self)
  then show ?case by simp
next
  case (append mb self n r)
  then have d: "distinct (map fst (mb @ [(n, r)]))" by auto
  have "\<exists>r'. (s, r') \<in> set (mb @ [(n, r)]) \<and> names L (config self) r' k"
    if "(k, (s, md)) \<in> set (tree self)" for k s md
  proof -
    from append.IH that obtain r' where "(s, r') \<in> set mb" "names L (config self) r' k"
      by blast
    then show ?thesis by (intro exI [of _ r']) simp
  qed
  then show ?case using d by blast
next
  case (sync mb self B)
  let ?self1 = "ifap (synchronize L self B)"
  have s1: "?self1 = self\<lparr>tree := tree ?self1\<rparr>" by (rule synchronize_ifap)
  have cf: "config ?self1 = config self" by (subst s1) simp
  have cons: "consistent L (config self) B (tree self)"
    unfolding consistent_iff using sync.IH servesD [OF sync.hyps(2)] by metis
  have ent: "\<exists>r. (s, r) \<in> set mb \<and> names L (config self) r k"
    if "(k, (s, md)) \<in> set (tree ?self1)" for k s md
  proof (cases "imap_select B (base_folder self) \<noteq> ''OK'' \<or> fst (imap_search B) \<noteq> ''OK''")
    case True
    then have "tree ?self1 = tree self" by (simp add: synchronize_tree)
    then have "(k, (s, md)) \<in> set (tree self)" using that by simp
    then show ?thesis using sync.IH by blast
  next
    case ok: False
    show ?thesis
    proof (cases "ints_of L (split_on CHR '' '' (snd (imap_search B)))")
      case None
      then have "tree ?self1 = tree self" using ok by (simp add: synchronize_tree)
      then have "(k, (s, md)) \<in> set (tree self)" using that by simp
      then show ?thesis using sync.IH by blast
    next
      case (Some ns)
      let ?xs = "rev (sort ns)"
      let ?st0 = "\<lparr>s_tree = tree self, s_broken = {}, s_to_delete = {}\<rparr>"
      obtain e st' where r: "scan L (config self) B ?xs ?st0 = (e, st')"
        by (cases "scan L (config self) B ?xs ?st0")
      have t1: "tree ?self1 = s_tree st'"
        using ok Some r by (simp add: synchronize_tree)
      have sup: "superseded L (config self) B ?st0" by (simp add: superseded_def)
      have c0: "consistent L (config self) B (s_tree ?st0)" using cons by simp
      note inv = scan_invariant [OF r c0 sup]
      have seqs: "set ns = set (map fst mb)"
        using sync.hyps(2) Some by (simp add: serves_def)
      have nm: "names L (config self) (imap_fetch B s) k"
        using inv that t1 by (auto simp: consistent_iff)
      have "s \<in> fst ` snd ` set (s_tree st')"
        using that t1 by force
      then have "s \<in> set ?xs \<union> fst ` snd ` set (tree self)"
        using inv by auto
      then have "s \<in> set (map fst mb)"
      proof
        assume "s \<in> set ?xs"
        then show ?thesis using seqs by simp
      next
        assume "s \<in> fst ` snd ` set (tree self)"
        then obtain k' md' where "(k', (s, md')) \<in> set (tree self)" by force
        then obtain r' where "(s, r') \<in> set mb" using sync.IH by blast
        then show ?thesis by force
      qed
      then obtain r' where r': "(s, r') \<in> set mb" by force
      then have "imap_fetch B s = r'" using servesD [OF sync.hyps(2)] by blast
      then have "names L (config self) r' k" using nm by simp
      then show ?thesis using r' by blast
    qed
  qed
  show ?case using sync.IH ent cf by simp
qed

text \<open>
  C1, as the code has it. After any sequence of appends and \<open>synchronize\<close> calls
  from an empty folder and an empty index, when a \<open>synchronize\<close> that sees the whole
  folder returns without an exception, the sequence number the index records for a
  key is the highest among all messages of the folder that parse and name that key.
  A message with \<open>del\<close> counts like any other.
\<close>

theorem index_holds_latest:
  assumes "reachable L mb self"
    and "serves L B mb"
    and "exc (synchronize L self B) = None"
    and "map_of (tree (ifap (synchronize L self B))) k = Some (s, md)"
  shows "s = latest_named L (config self) mb k"
proof -
  let ?self1 = "ifap (synchronize L self B)"
  let ?cfg = "config self"
  have s1: "?self1 = self\<lparr>tree := tree ?self1\<rparr>" by (rule synchronize_ifap)
  have cf: "config ?self1 = ?cfg" by (subst s1) simp
  have ok: "\<not> (imap_select B (base_folder self) \<noteq> ''OK'' \<or> fst (imap_search B) \<noteq> ''OK'')"
    using assms(3) by (auto simp: synchronize_exc split: if_splits)
  obtain ns where ns: "ints_of L (split_on CHR '' '' (snd (imap_search B))) = Some ns"
    using assms(3) ok by (cases "ints_of L (split_on CHR '' '' (snd (imap_search B)))")
      (auto simp: synchronize_exc)
  let ?xs = "rev (sort ns)"
  let ?st0 = "\<lparr>s_tree = tree self, s_broken = {}, s_to_delete = {}\<rparr>"
  obtain e st' where r: "scan L ?cfg B ?xs ?st0 = (e, st')"
    by (cases "scan L ?cfg B ?xs ?st0")
  have e: "e = None"
    using assms(3) ok ns r by (simp add: synchronize_exc)
  have t1: "tree ?self1 = s_tree st'"
    using ok ns r by (simp add: synchronize_tree)
  have inv0: "distinct (map fst mb)"
    "\<And>k s md. (k, (s, md)) \<in> set (tree self) \<Longrightarrow> \<exists>r. (s, r) \<in> set mb \<and> names L ?cfg r k"
    using reachable_invariant [OF assms(1)] by blast+
  have cons: "consistent L ?cfg B (s_tree ?st0)"
    unfolding consistent_iff using inv0(2) servesD [OF assms(2)] by (metis scan_state.select_convs(1))
  have sup: "superseded L ?cfg B ?st0" by (simp add: superseded_def)
  note inv = scan_invariant [OF r cons sup]
  have seqs: "set ?xs = set (map fst mb)"
    using assms(2) ns by (simp add: serves_def)
  have q: "quiet L ?cfg B (s_tree st') x" if "x \<in> set (map fst mb)" for x
    using inv e seqs that by auto
  have reach1: "reachable L mb ?self1"
    using assms(1,2) by (rule reachable.sync)
  have ent: "(k, (s, md)) \<in> set (tree ?self1)"
    using assms(4) by (rule map_of_SomeD)
  then obtain r0 where r0: "(s, r0) \<in> set mb" "names L ?cfg r0 k"
    using reachable_invariant [OF reach1] cf by metis
  let ?S = "set (map fst (filter (\<lambda>m. names L ?cfg (snd m) k) mb))"
  have mem: "s \<in> ?S"
    using r0 by force
  have le: "y \<le> s" if "y \<in> ?S" for y
  proof -
    from that obtain r' where r': "(y, r') \<in> set mb" "names L ?cfg r' k" by auto
    then have f: "imap_fetch B y = r'" using servesD [OF assms(2)] by blast
    have "y \<in> set (map fst mb)" using r'(1) by force
    then have "quiet L ?cfg B (s_tree st') y" by (rule q)
    then have "y \<le> latest_seq (s_tree st') k"
      using r'(2) f by (auto simp: quiet_def names_classify)
    moreover have "latest_seq (s_tree st') k = s"
      using assms(4) t1 by (simp add: latest_seq_entry)
    ultimately show ?thesis by simp
  qed
  have "Max ?S = s"
    using mem le by (intro Max_eqI) auto
  then show ?thesis by (simp add: latest_named_def)
qed

theorem index_holds_latest_witness:
  "reachable eval_lib folder_tombstone (IFAP_init ''INBOX'')
   \<and> serves eval_lib (imap_of ''1 2'' folder_tombstone) folder_tombstone
   \<and> exc (synchronize eval_lib (IFAP_init ''INBOX'') (imap_of ''1 2'' folder_tombstone)) = None
   \<and> map_of (tree (ifap (synchronize eval_lib (IFAP_init ''INBOX'')
                          (imap_of ''1 2'' folder_tombstone)))) (KStr ''a'')
       = Some (2, [(''del'', JBool True)])
   \<and> latest_named eval_lib (config (IFAP_init ''INBOX'')) folder_tombstone (KStr ''a'') = 2"
proof -
  have r0: "reachable eval_lib [] (IFAP_init ''INBOX'')"
    by (rule reachable.start) (simp add: IFAP_init_def)
  have r1: "reachable eval_lib ([] @ [(1, fetched ''{\"fn\": \"a\"}'')]) (IFAP_init ''INBOX'')"
    using r0 by (rule reachable.append) simp
  have r2: "reachable eval_lib (([] @ [(1, fetched ''{\"fn\": \"a\"}'')])
              @ [(2, fetched ''{\"fn\": \"a\", \"del\": true}'')]) (IFAP_init ''INBOX'')"
    using r1 by (rule reachable.append) simp
  have h1: "reachable eval_lib folder_tombstone (IFAP_init ''INBOX'')"
    using r2 by (simp add: folder_tombstone_def)
  have h2: "serves eval_lib (imap_of ''1 2'' folder_tombstone) folder_tombstone"
    by code_simp
  have h3: "exc (synchronize eval_lib (IFAP_init ''INBOX'') (imap_of ''1 2'' folder_tombstone))
              = None"
    by code_simp
  have h4: "map_of (tree (ifap (synchronize eval_lib (IFAP_init ''INBOX'')
                          (imap_of ''1 2'' folder_tombstone)))) (KStr ''a'')
              = Some (2, [(''del'', JBool True)])"
    by code_simp
  from index_holds_latest [OF h1 h2 h3 h4] h1 h2 h3 h4 show ?thesis
    by simp
qed

text \<open>
  The claim as stated fails: message 2 is a tombstone for \<open>a\<close>, the index records
  2 for \<open>a\<close>, and the highest message that names \<open>a\<close> and is not a tombstone is 1.
\<close>

theorem index_counts_tombstone:
  "map_of (tree (ifap (synchronize eval_lib (IFAP_init ''INBOX'')
                        (imap_of ''1 2'' folder_tombstone)))) (KStr ''a'')
     = Some (2, [(''del'', JBool True)])
   \<and> latest_live eval_lib default_config folder_tombstone (KStr ''a'') = 1"
  by code_simp

section \<open>Padding in encrypted mode\<close>

lemma py_join_snoc: "xs \<noteq> [] \<Longrightarrow> py_join sep (xs @ [y]) = py_join sep xs @ sep @ y"
  by (induction sep xs rule: py_join.induct) auto

lemma update_absent: "k \<notin> fst ` set al \<Longrightarrow> AList.update k v al = al @ [(k, v)]"
  by (induction al) auto

lemma keys_dict_update: "fst ` set (dict_update d e) = fst ` set d \<union> fst ` set e"
  unfolding dict_update_def
  by (induction e arbitrary: d) (auto simp: dom_update image_iff)

lemma dict_update_nonempty: "d \<noteq> [] \<Longrightarrow> dict_update d e \<noteq> []"
  unfolding dict_update_def
  by (induction e arbitrary: d) (auto simp: update_nonempty)

lemma escape_underscore: "escape_char CHR ''_'' = ''_''"
  by (simp add: escape_char_def)

lemma encode_underscores:
  "encode_basestring L (replicate n CHR ''_'') = [CHR 0x22] @ replicate n CHR ''_'' @ [CHR 0x22]"
proof -
  have "concat (map escape_char (replicate n CHR ''_'')) = replicate n CHR ''_''"
    by (induction n) (simp_all add: escape_underscore)
  then show ?thesis
    by (simp add: encode_basestring_def)
qed

lemma encode_underscore_key: "encode_basestring L ''_'' = [CHR 0x22, CHR ''_'', CHR 0x22]"
  using encode_underscores [of L 1] by simp

lemma length_dumps_snoc:
  assumes "al \<noteq> []"
  shows "length (json_dumps L (JObj (al @ [(''_'', JStr (replicate n CHR ''_''))])))
         = length (json_dumps L (JObj al)) + 11 + n"
  using assms
  by (simp add: json_dumps_def py_join_snoc encode_underscores encode_underscore_key
      newline_indent_def)

lemma pad_aux:
  assumes "m < b" and "c < b"
  shows "((b * d + m) + c + (b - m)) mod b = (c::nat)"
proof -
  have "(b * d + m) + c + (b - m) = c + b * (d + 1)"
    using assms(1) by (simp add: algebra_simps)
  then show ?thesis
    using assms(2) by (metis mod_mult_self2 mod_less)
qed

lemma pad_arith: "((l::nat) + 11 + (148 - l mod 148)) mod 148 = 11"
  using pad_aux [of "l mod 148" 148 11 "l div 148"] by simp

lemma pad_arith_data: "((l::nat) + (2048 - l mod 2048)) mod 2048 = 0"
  using pad_aux [of "l mod 2048" 2048 0 "l div 2048"] by simp

lemma xifap_length_mod:
  assumes "encrypt cfg" and "''_'' \<notin> fst ` set metadata"
  shows "length (encode_xifap L cfg file_path file_data metadata) mod 148 = 11"
proof -
  let ?m = "encode_mdata0 file_path file_data metadata"
  let ?l = "length (json_dumps L (JObj ?m))"
  have k: "''_'' \<notin> fst ` set ?m"
    using assms(2) by (simp add: encode_mdata0_def keys_dict_update)
  have ne: "?m \<noteq> []"
    by (simp add: encode_mdata0_def dict_update_nonempty)
  have t: "take (148 - ?l mod 148) (replicate 200 CHR ''_'') = replicate (148 - ?l mod 148) CHR ''_''"
    by (simp add: min_def)
  have "encode_xifap L cfg file_path file_data metadata
        = json_dumps L (JObj (?m @ [(''_'', JStr (replicate (148 - ?l mod 148) CHR ''_''))]))"
    using assms(1) k by (simp add: encode_xifap_def encode_mdata_def Let_def update_absent t)
  then show ?thesis
    using length_dumps_snoc [OF ne] pad_arith [of ?l] by simp
qed

lemma file_data_length_mod:
  assumes "encrypt cfg"
  shows "length (encode_file_data cfg file_data) mod 2048 = 0"
  using assms pad_arith_data [of "length file_data"] by (simp add: encode_file_data_def)


text \<open>
  C7. For the path \<open>a\<close>, an empty payload and no metadata, the metadata blob that
  \<open>encode_object\<close> encrypts is 159 bytes long: 11 more than a multiple of 148.
\<close>

theorem xifap_padding_misses:
  "encrypt encrypting
   \<and> length (encode_xifap eval_lib encrypting ''a'' [] []) = 159
   \<and> length (encode_xifap eval_lib encrypting ''a'' [] []) mod 148 = 11"
  by code_simp

section \<open>flush\<close>

lemma encode_object_Inr:
  assumes "encrypt cfg \<longrightarrow> fernet cfg \<noteq> None"
  shows "\<exists>eml. encode_object L cfg p d m = Inr eml"
  using assms by (auto simp: encode_object_def maybe_encrypt_def Let_def)

lemma delete_absent: "k \<notin> fst ` set al \<Longrightarrow> AList.delete k al = al"
  by (induction al) auto

lemma delete_middle:
  assumes "distinct (map fst (pre @ (k, v) # post))"
  shows "AList.delete k (pre @ (k, v) # post) = pre @ post"
proof -
  have "k \<notin> fst ` set pre" "k \<notin> fst ` set post"
    using assms by auto
  then show ?thesis
    by (induction pre) (auto simp: delete_absent)
qed

lemma map_of_middle:
  assumes "distinct (map fst (pre @ (k, v) # post))"
  shows "map_of (pre @ (k, v) # post) k = Some v"
  using assms by (induction pre) auto

lemma flush_loop_general:
  assumes "unwritten self = pre @ todo"
    and "distinct (map fst (pre @ todo))"
    and "encrypt (config self) \<longrightarrow> fernet (config self) \<noteq> None"
  shows "flush_loop L B (map fst todo) self out =
           \<lparr>f_exc = None,
            f_ifap = self
              \<lparr>unwritten_bytes := unwritten_bytes self
                 - sum_list (map (\<lambda>pb. int (length (snd pb)))
                     (filter (append_ok L B (config self) (base_folder self)) todo)),
               unwritten := pre @ filter (\<lambda>pb. \<not> append_ok L B (config self) (base_folder self) pb) todo\<rparr>,
            f_out = out @ map (failed_line L B (config self) (base_folder self))
                      (filter (\<lambda>pb. \<not> append_ok L B (config self) (base_folder self) pb) todo)\<rparr>"
  using assms
proof (induction todo arbitrary: self pre out)
  case Nil
  then show ?case by simp
next
  case (Cons pb todo)
  obtain p buf where pb: "pb = (p, buf)" by (cases pb)
  obtain eml where eml: "encode_object L (config self) p buf [] = Inr eml"
    using encode_object_Inr [OF Cons.prems(3)] by blast
  have look: "map_of (unwritten self) p = Some buf"
    using Cons.prems(1,2) map_of_middle [of pre p buf todo] by (simp add: pb)
  show ?case
  proof (cases "fst (imap_append B (base_folder self) eml) = ''OK''")
    case True
    let ?self' = "self\<lparr>unwritten_bytes := unwritten_bytes self - int (length buf),
                        unwritten := AList.delete p (unwritten self)\<rparr>"
    have u: "unwritten ?self' = pre @ todo"
      using Cons.prems(1,2) delete_middle [of pre p buf todo] by (simp add: pb)
    have d: "distinct (map fst (pre @ todo))"
      using Cons.prems(2) by simp
    have c: "encrypt (config ?self') \<longrightarrow> fernet (config ?self') \<noteq> None"
      using Cons.prems(3) by simp
    have ok: "append_ok L B (config self) (base_folder self) pb"
      using True eml by (simp add: append_ok_def pb)
    show ?thesis
      using Cons.IH [OF u d c, of out] True eml look ok
      by (simp add: pb)
  next
    case False
    have u: "unwritten self = (pre @ [pb]) @ todo"
      using Cons.prems(1) by simp
    have d: "distinct (map fst ((pre @ [pb]) @ todo))"
      using Cons.prems(2) by simp
    have nok: "\<not> append_ok L B (config self) (base_folder self) pb"
      using False eml by (simp add: append_ok_def pb)
    have fl: "failed_line L B (config self) (base_folder self) pb
              = ''Failed: '' @ snd (imap_append B (base_folder self) eml)"
      using eml by (simp add: failed_line_def pb)
    show ?thesis
      using Cons.IH [OF u d Cons.prems(3), of "out @ [''Failed: '' @ snd (imap_append B (base_folder self) eml)]"]
        False eml look nok fl
      by (simp add: pb)
  qed
qed

text \<open>
  C8, as the code has it. When the staged dict has one entry per path and encoding
  does not raise (a key is set whenever \<open>encrypt\<close> is), \<open>flush\<close> encodes and appends
  every pending path and returns normally. The entries whose append succeeded are
  removed and the byte counter is decremented by their sizes; the entries whose
  append failed stay staged, and for each of them \<open>flush\<close> prints one line: no
  exception is raised and nothing is returned.
\<close>

theorem flush_outcome:
  assumes "distinct (map fst (unwritten self))"
    and "encrypt (config self) \<longrightarrow> fernet (config self) \<noteq> None"
  shows "f_exc (flush L self B) = None
     \<and> unwritten (f_ifap (flush L self B))
         = filter (\<lambda>pb. \<not> append_ok L B (config self) (base_folder self) pb) (unwritten self)
     \<and> unwritten_bytes (f_ifap (flush L self B))
         = unwritten_bytes self
           - sum_list (map (\<lambda>pb. int (length (snd pb)))
               (filter (append_ok L B (config self) (base_folder self)) (unwritten self)))
     \<and> f_out (flush L self B)
         = map (failed_line L B (config self) (base_folder self))
             (filter (\<lambda>pb. \<not> append_ok L B (config self) (base_folder self) pb) (unwritten self))"
  using flush_loop_general [of self "[]" "unwritten self" L B "[]"] assms
  by (simp add: flush_def)

theorem flush_outcome_witness:
  "distinct (map fst (unwritten staged_two))
   \<and> \<not> encrypt (config staged_two)
   \<and> f_exc (flush eval_lib staged_two imap_picky) = None
   \<and> unwritten (f_ifap (flush eval_lib staged_two imap_picky)) = [(''b'', ''no'')]
   \<and> unwritten_bytes (f_ifap (flush eval_lib staged_two imap_picky)) = 2
   \<and> f_out (flush eval_lib staged_two imap_picky) = [''Failed: quota'']"
proof -
  have u: "unwritten staged_two = [(''a'', ''hello''), (''b'', ''no'')]"
    and b: "unwritten_bytes staged_two = 7"
    and e: "\<not> encrypt (config staged_two)"
    by (simp_all add: staged_two_def IFAP_init_def default_config_def)
  have h1: "distinct (map fst (unwritten staged_two))"
    by (simp add: u)
  have h2: "encrypt (config staged_two) \<longrightarrow> fernet (config staged_two) \<noteq> None"
    by (simp add: e)
  have a: "append_ok eval_lib imap_picky (config staged_two) (base_folder staged_two)
             (''a'', ''hello'')"
    by code_simp
  have nb: "\<not> append_ok eval_lib imap_picky (config staged_two) (base_folder staged_two)
              (''b'', ''no'')"
    by code_simp
  have l: "failed_line eval_lib imap_picky (config staged_two) (base_folder staged_two)
             (''b'', ''no'') = ''Failed: quota''"
    by code_simp
  from flush_outcome [OF h1 h2, of eval_lib imap_picky] show ?thesis
    using h1 e by (simp add: u b a nb l)
qed

text \<open>
  The claim as stated fails: when the backend refuses the append, \<open>flush\<close> returns
  normally, with the entry still staged and one printed line.
\<close>

theorem flush_refused_returns:
  "f_exc (flush eval_lib staged imap_full) = None
   \<and> unwritten (f_ifap (flush eval_lib staged imap_full)) = [(''a'', ''hello'')]
   \<and> unwritten_bytes (f_ifap (flush eval_lib staged imap_full)) = 5
   \<and> f_out (flush eval_lib staged imap_full) = [''Failed: quota'']"
  by code_simp

section \<open>Encoding and reading back\<close>
















section \<open>The encryption key\<close>

text \<open>
  With the configuration \<open>set_encryption_key\<close> leaves, \<open>encode_object\<close> writes the
  encrypted form of a message: the fixed subject and file name, 7bit, and the
  metadata (with its padding field) and the padded payload as Fernet tokens under
  the derived key.
\<close>

lemma set_encryption_key_encode_object:
  "encode_object L (config (set_encryption_key L self k)) file_path file_data metadata =
     Inr (py_join [CHR 0x0D, CHR 0x0A]
            [''To: .. <to@ifap.example>'',
             ''From: .. <from@ifap.example>'',
             ''Subject: ...'',
             ''X-IFAP:'',
             reflow (fernet_encrypt L (urlsafe_b64encode L (take 32 (sha256_digest L k)))
                       (encode_xifap L (config (set_encryption_key L self k))
                          file_path file_data metadata)) '' '' False,
             ''Content-Type: application/x-ifap'',
             ''Content-Transfer-Encoding: 7bit'',
             ''Content-Disposition: attachment; filename='' @ [CHR 0x22] @ ''ifap.enc'' @ [CHR 0x22],
             [],
             reflow (fernet_encrypt L (urlsafe_b64encode L (take 32 (sha256_digest L k)))
                       (file_data @ replicate (2048 - (length file_data mod 2048)) CHR '' ''))
               [] False])"
  by (simp add: encode_object_def set_encryption_key_def maybe_encrypt_def
      encode_file_data_def Let_def)


text \<open>
  C9. \<open>set_encryption_key\<close> sets the key to the URL-safe base64 encoding of the first
  32 bytes of the SHA-256 digest of the passphrase and sets the \<open>encrypt\<close> flag, and
  an \<open>encode_object\<close> under that configuration writes the encrypted form. But the
  setting does not last from that point on: when the key is set inside a scoped
  session, \<open>__exit__\<close> puts back the configuration that \<open>__enter__\<close> saved. In the
  session below the key is set while a file is staged; after \<open>__exit__\<close> the flag is
  off and the key is gone, and the staged file has been appended by the flush of
  \<open>__exit__\<close> as a plaintext message (the backend takes no other), as every later
  encode is.
\<close>

theorem set_encryption_key_lost_on_exit:
  "key (config (set_encryption_key L self k))
     = Some (urlsafe_b64encode L (take 32 (sha256_digest L k)))
   \<and> encrypt (config (set_encryption_key L self k))
   \<and> encode_object L (config (set_encryption_key L self k)) file_path file_data metadata =
     Inr (py_join [CHR 0x0D, CHR 0x0A]
            [''To: .. <to@ifap.example>'',
             ''From: .. <from@ifap.example>'',
             ''Subject: ...'',
             ''X-IFAP:'',
             reflow (fernet_encrypt L (urlsafe_b64encode L (take 32 (sha256_digest L k)))
                       (encode_xifap L (config (set_encryption_key L self k))
                          file_path file_data metadata)) '' '' False,
             ''Content-Type: application/x-ifap'',
             ''Content-Transfer-Encoding: 7bit'',
             ''Content-Disposition: attachment; filename='' @ [CHR 0x22] @ ''ifap.enc'' @ [CHR 0x22],
             [],
             reflow (fernet_encrypt L (urlsafe_b64encode L (take 32 (sha256_digest L k)))
                       (file_data @ replicate (2048 - (length file_data mod 2048)) CHR '' ''))
               [] False])
   \<and> exc (IFAP_enter eval_lib staged imap_session) = None
   \<and> encrypt (config session_keyed)
   \<and> key (config session_keyed)
       = Some (urlsafe_b64encode eval_lib (take 32 (sha256_digest eval_lib ''hunter2'')))
   \<and> unwritten session_keyed = [(''a'', ''hello'')]
   \<and> fst (IFAP_exit eval_lib session_keyed imap_session imap_session) = None
   \<and> \<not> encrypt (config session_left)
   \<and> key (config session_left) = None
   \<and> fernet (config session_left) = None
   \<and> unwritten session_left = []
   \<and> subject_of (encode_object eval_lib (config session_left) ''a'' ''hello'' []) = Some ''a''"
proof -
  have post: "key (config (set_encryption_key L self k))
                = Some (urlsafe_b64encode L (take 32 (sha256_digest L k)))"
    "encrypt (config (set_encryption_key L self k))"
    by (simp_all add: set_encryption_key_def Let_def)
  have session: "exc (IFAP_enter eval_lib staged imap_session) = None
     \<and> encrypt (config session_keyed)
     \<and> key (config session_keyed)
         = Some (urlsafe_b64encode eval_lib (take 32 (sha256_digest eval_lib ''hunter2'')))
     \<and> unwritten session_keyed = [(''a'', ''hello'')]
     \<and> fst (IFAP_exit eval_lib session_keyed imap_session imap_session) = None
     \<and> \<not> encrypt (config session_left)
     \<and> key (config session_left) = None
     \<and> fernet (config session_left) = None
     \<and> unwritten session_left = []
     \<and> subject_of (encode_object eval_lib (config session_left) ''a'' ''hello'' []) = Some ''a''"
    by code_simp
  show ?thesis
    using post session
      set_encryption_key_encode_object [of L self k file_path file_data metadata]
    by blast
qed

section \<open>Opening a file\<close>

lemma file_path_name_undefined: "\<not> name_defined ''_file_path''"
  by (simp add: name_defined_def init_locals_def module_globals_def underscore_builtins_def)

text \<open>
  C10. For every path and mode, \<open>IFAP.open\<close> raises NameError: the constructor of
  \<open>IFAP_File\<close> reads the name \<open>_file_path\<close>, which is bound nowhere, so no call
  returns a file handle.
\<close>

theorem IFAP_open_raises:
  "IFAP_open self file_path mode = Inl NameError"
  by (simp add: IFAP_open_def IFAP_File_init_def file_path_name_undefined Let_def)

end
